theory Spec2Isabelle
  imports Main "HOL-Library.Word"
begin

unbundle bit_operations_syntax

section \<open>Strings and buffers\<close>

text \<open>
  A JavaScript string is a sequence of 16-bit code units; a Buffer is a sequence of
  bytes. String literals of the source are written with \<open>js\<close>.
\<close>

type_synonym byte = "8 word"
type_synonym jsstring = "16 word list"

definition js :: "string \<Rightarrow> jsstring" where
  "js s = map (\<lambda>c. of_nat (of_char c)) s"

text \<open>\<open>!x\<close> on a string: the empty string is falsy.\<close>

definition falsy :: "jsstring \<Rightarrow> bool" where
  "falsy s = (s = [])"

text \<open>\<open>!x\<close> on a property that may be absent (\<open>undefined\<close>, \<open>null\<close>) or hold a string.\<close>

definition absent :: "jsstring option \<Rightarrow> bool" where
  "absent v = (case v of None \<Rightarrow> True | Some s \<Rightarrow> falsy s)"

text \<open>\<open>String.prototype.split\<close> with a one-character separator.\<close>

fun js_split :: "'a \<Rightarrow> 'a list \<Rightarrow> 'a list list" where
  "js_split sep [] = [[]]"
| "js_split sep (x # xs) =
     (if x = sep then [] # js_split sep xs
      else (case js_split sep xs of [] \<Rightarrow> [[x]] | p # ps \<Rightarrow> (x # p) # ps))"

definition colon :: "16 word" where
  "colon = 58"

subsection \<open>Base64, as Buffer encodes and decodes it\<close>

text \<open>
  The encoder writes the standard alphabet with \<open>=\<close> padding. The decoder of
  \<open>Buffer.from(s, 'base64')\<close> is lenient: it stops at the first \<open>=\<close>, skips every
  character outside the alphabet, and also reads the URL-safe \<open>-\<close> and \<open>_\<close>. Of
  every code unit of the string it reads the low byte.
  Both are written on numbers (character codes and byte values) and lifted to words.
\<close>

definition b64chr :: "nat \<Rightarrow> nat" where
  "b64chr n = (if n < 26 then 65 + n else if n < 52 then 71 + n
               else if n < 62 then n - 4 else if n = 62 then 43 else 47)"

definition unbase64 :: "nat \<Rightarrow> nat option" where
  "unbase64 c = (if 65 \<le> c \<and> c \<le> 90 then Some (c - 65)
                 else if 97 \<le> c \<and> c \<le> 122 then Some (c - 71)
                 else if 48 \<le> c \<and> c \<le> 57 then Some (c + 4)
                 else if c = 43 \<or> c = 45 then Some 62
                 else if c = 47 \<or> c = 95 then Some 63
                 else None)"

fun b64_encode_nat :: "nat list \<Rightarrow> nat list" where
  "b64_encode_nat (a # b # c # rest) =
     (let n = a * 65536 + b * 256 + c
      in b64chr (n div 262144) # b64chr (n div 4096 mod 64) # b64chr (n div 64 mod 64)
         # b64chr (n mod 64) # b64_encode_nat rest)"
| "b64_encode_nat [a, b] =
     (let n = a * 65536 + b * 256
      in [b64chr (n div 262144), b64chr (n div 4096 mod 64), b64chr (n div 64 mod 64), 61])"
| "b64_encode_nat [a] =
     (let n = a * 65536
      in [b64chr (n div 262144), b64chr (n div 4096 mod 64), 61, 61])"
| "b64_encode_nat [] = []"

fun b64_groups :: "nat list \<Rightarrow> nat list" where
  "b64_groups (s0 # s1 # s2 # s3 # rest) =
     (let m = s0 * 262144 + s1 * 4096 + s2 * 64 + s3
      in (m div 65536) mod 256 # (m div 256) mod 256 # m mod 256 # b64_groups rest)"
| "b64_groups [s0, s1, s2] =
     (let m = s0 * 262144 + s1 * 4096 + s2 * 64
      in [(m div 65536) mod 256, (m div 256) mod 256])"
| "b64_groups [s0, s1] =
     (let m = s0 * 262144 + s1 * 4096 in [(m div 65536) mod 256])"
| "b64_groups [s0] = []"
| "b64_groups [] = []"

text \<open>The six-bit values of the characters read: up to the first \<open>=\<close>, the alphabet only.\<close>

definition sextets :: "nat list \<Rightarrow> nat list" where
  "sextets cs = List.map_filter unbase64 (takeWhile (\<lambda>c. c \<noteq> 61) cs)"

definition b64_decode_nat :: "nat list \<Rightarrow> nat list" where
  "b64_decode_nat cs = b64_groups (sextets cs)"

definition to_base64 :: "byte list \<Rightarrow> jsstring" where
  "to_base64 buf = map of_nat (b64_encode_nat (map unat buf))"

definition from_base64 :: "jsstring \<Rightarrow> byte list" where
  "from_base64 s = map of_nat (b64_decode_nat (map (\<lambda>unit. unat unit mod 256) s))"

subsection \<open>UTF-8, as the cipher streams encode and decode it\<close>

text \<open>
  Encoding a string as \<open>'utf8'\<close> reads its code units as UTF-16: a high surrogate followed
  by a low surrogate is one code point, and a surrogate that stands alone is written as
  the replacement character U+FFFD. Decoding replaces every ill-formed byte sequence by
  U+FFFD and writes code points above U+FFFF as a surrogate pair.
\<close>

definition is_high :: "nat \<Rightarrow> bool" where
  "is_high u = (55296 \<le> u \<and> u \<le> 56319)"

definition is_low :: "nat \<Rightarrow> bool" where
  "is_low u = (56320 \<le> u \<and> u \<le> 57343)"

fun utf16_code_points :: "nat list \<Rightarrow> nat list" where
  "utf16_code_points [] = []"
| "utf16_code_points [u] = [if is_high u \<or> is_low u then 65533 else u]"
| "utf16_code_points (u # v # rest) =
     (if is_high u \<and> is_low v
      then (65536 + (u - 55296) * 1024 + (v - 56320)) # utf16_code_points rest
      else (if is_high u \<or> is_low u then 65533 else u) # utf16_code_points (v # rest))"

definition utf8_bytes :: "nat \<Rightarrow> nat list" where
  "utf8_bytes c =
     (if c < 128 then [c]
      else if c < 2048 then [192 + c div 64, 128 + c mod 64]
      else if c < 65536 then [224 + c div 4096, 128 + c div 64 mod 64, 128 + c mod 64]
      else [240 + c div 262144, 128 + c div 4096 mod 64, 128 + c div 64 mod 64,
            128 + c mod 64])"

definition utf8_encode_nat :: "nat list \<Rightarrow> nat list" where
  "utf8_encode_nat us = concat (map utf8_bytes (utf16_code_points us))"

definition utf16_units :: "nat \<Rightarrow> nat list" where
  "utf16_units c =
     (if c < 65536 then [c]
      else [55296 + (c - 65536) div 1024, 56320 + (c - 65536) mod 1024])"

definition cont :: "nat \<Rightarrow> bool" where
  "cont b = (128 \<le> b \<and> b \<le> 191)"

text \<open>
  One step of the decoder: the lead byte and the bytes after it give the code units
  written and the input left. A byte that cannot continue the sequence ends it with
  U+FFFD and is read again as a lead byte.
\<close>

definition utf8_step :: "nat \<Rightarrow> nat list \<Rightarrow> nat list \<times> nat list" where
  "utf8_step b bs =
     (if b < 128 then ([b], bs)
      else if 194 \<le> b \<and> b \<le> 223 then
        (case bs of
           [] \<Rightarrow> ([65533], [])
         | b1 # r1 \<Rightarrow>
             if cont b1 then ([(b - 192) * 64 + (b1 - 128)], r1) else ([65533], bs))
      else if 224 \<le> b \<and> b \<le> 239 then
        (case bs of
           [] \<Rightarrow> ([65533], [])
         | b1 # r1 \<Rightarrow>
             if (if b = 224 then 160 else 128) \<le> b1 \<and> b1 \<le> (if b = 237 then 159 else 191)
             then (case r1 of
                     [] \<Rightarrow> ([65533], [])
                   | b2 # r2 \<Rightarrow>
                       if cont b2
                       then ([(b - 224) * 4096 + (b1 - 128) * 64 + (b2 - 128)], r2)
                       else ([65533], r1))
             else ([65533], bs))
      else if 240 \<le> b \<and> b \<le> 244 then
        (case bs of
           [] \<Rightarrow> ([65533], [])
         | b1 # r1 \<Rightarrow>
             if (if b = 240 then 144 else 128) \<le> b1 \<and> b1 \<le> (if b = 244 then 143 else 191)
             then (case r1 of
                     [] \<Rightarrow> ([65533], [])
                   | b2 # r2 \<Rightarrow>
                       if cont b2
                       then (case r2 of
                               [] \<Rightarrow> ([65533], [])
                             | b3 # r3 \<Rightarrow>
                                 if cont b3
                                 then (utf16_units ((b - 240) * 262144 + (b1 - 128) * 4096
                                                    + (b2 - 128) * 64 + (b3 - 128)), r3)
                                 else ([65533], r2))
                       else ([65533], r1))
             else ([65533], bs))
      else ([65533], bs))"

lemma utf8_step_length: "length (snd (utf8_step b bs)) \<le> length bs"
  by (auto simp: utf8_step_def split: list.splits)

function utf8_decode_nat :: "nat list \<Rightarrow> nat list" where
  "utf8_decode_nat [] = []"
| "utf8_decode_nat (b # bs) = fst (utf8_step b bs) @ utf8_decode_nat (snd (utf8_step b bs))"
  by pat_completeness auto
termination
  by (relation "measure length") (auto simp: utf8_step_length le_imp_less_Suc)

definition utf8_encode :: "jsstring \<Rightarrow> byte list" where
  "utf8_encode s = map of_nat (utf8_encode_nat (map unat s))"

definition utf8_decode :: "byte list \<Rightarrow> jsstring" where
  "utf8_decode buf = map of_nat (utf8_decode_nat (map unat buf))"

text \<open>
  A string is well formed when every high surrogate is followed by a low surrogate and
  no low surrogate stands elsewhere.
\<close>

fun well_formed :: "nat list \<Rightarrow> bool" where
  "well_formed [] = True"
| "well_formed [u] = (\<not> is_high u \<and> \<not> is_low u)"
| "well_formed (u # v # rest) =
     (if is_high u then is_low v \<and> well_formed rest
      else \<not> is_low u \<and> well_formed (v # rest))"

definition well_formed_string :: "jsstring \<Rightarrow> bool" where
  "well_formed_string s = well_formed (map unat s)"

section \<open>helpers/encryption.js\<close>

text \<open>
  The cipher \<open>aes-256-ctr\<close> of the crypto library is a parameter: for a key and an IV it
  gives the keystream byte at every position, and both directions XOR the data with it.
  \<open>createCipheriv\<close> and \<open>createDecipheriv\<close> throw when the IV is not 16 bytes or the key
  is not 32 bytes long. The 16 bytes of \<open>crypto.randomBytes(16)\<close> are an argument.
\<close>

type_synonym keystream = "byte list \<Rightarrow> byte list \<Rightarrow> nat \<Rightarrow> byte"

datatype exn = InvalidIVLength | InvalidKeyLength | ReferenceError

definition aes_256_ctr :: "keystream \<Rightarrow> byte list \<Rightarrow> byte list \<Rightarrow> byte list \<Rightarrow> byte list" where
  "aes_256_ctr ks key iv data = map2 (XOR) data (map (ks key iv) [0..<length data])"

definition encrypt :: "keystream \<Rightarrow> byte list \<Rightarrow> jsstring \<Rightarrow> jsstring \<Rightarrow> exn + jsstring" where
  "encrypt ks randomBytes plainTextMessage aesKeyBase64 =
     (let aesKeyBuffer = from_base64 aesKeyBase64;
          ivBuffer = randomBytes
      in if length ivBuffer \<noteq> 16 then Inl InvalidIVLength
         else if length aesKeyBuffer \<noteq> 32 then Inl InvalidKeyLength
         else Inr (to_base64 ivBuffer @ [colon]
                   @ to_base64 (aes_256_ctr ks aesKeyBuffer ivBuffer (utf8_encode plainTextMessage))))"

text \<open>
  \<open>decrypt\<close> ends in one of three ways: it calls back with an error, it calls back with
  the plaintext, or an exception of the cipher leaves it before any callback.
\<close>

datatype decrypt_result = CallbackError jsstring | CallbackOk jsstring | DecryptThrew exn

definition decrypt :: "keystream \<Rightarrow> jsstring \<Rightarrow> jsstring \<Rightarrow> decrypt_result" where
  "decrypt ks ivAndEncryptedDataBase64 aesKeyBase64 =
     (case js_split colon ivAndEncryptedDataBase64 of
        [piece0, piece1] \<Rightarrow>
          (let ivBuffer = from_base64 piece0;
               encryptedDataBase64 = piece1;
               aesKeyBuffer = from_base64 aesKeyBase64
           in if length ivBuffer \<noteq> 16 then DecryptThrew InvalidIVLength
              else if length aesKeyBuffer \<noteq> 32 then DecryptThrew InvalidKeyLength
              else CallbackOk (utf8_decode
                     (aes_256_ctr ks aesKeyBuffer ivBuffer (from_base64 encryptedDataBase64))))
      | _ \<Rightarrow> CallbackError (js ''Unable to decrypt the given data.''))"

section \<open>The account record and its store\<close>

text \<open>
  An account record holds one mapping from credential UUID to credential record per kind.
  A property of a credential record is a string or absent; a mapping that was never
  created is absent as well.
\<close>

record totp_entry =
  encryptedTotpKey :: "jsstring option"

record u2f_entry =
  encryptedAppId :: "jsstring option"
  encryptedRegistrationRequest :: "jsstring option"
  encryptedPublicKey :: "jsstring option"
  encryptedKeyHandle :: "jsstring option"
  encryptedAuthenticationRequest :: "jsstring option"

record api_key_record =
  record_id :: jsstring
  activated :: bool
  totp :: "(jsstring \<rightharpoonup> totp_entry) option"
  u2f :: "(jsstring \<rightharpoonup> u2f_entry) option"

text \<open>
  The store keeps one record per account identifier. Whether a read or a write of the
  store fails is part of its state.
\<close>

record store =
  rows :: "api_key_record list"
  read_fails :: bool
  write_fails :: bool

text \<open>
  Modelled from the spec: \<open>models/api-key.js\<close> (\<open>getApiKeyByValue\<close>,
  \<open>isAlreadyActivated\<close>, \<open>getActivatedApiKey\<close>, \<open>updateApiKeyRecord\<close>) is missing.
  The spec's Store Adapter is \<open>get(accountId) -> Record | NotFound\<close>,
  \<open>isActivated(Record) -> bool\<close> and \<open>put(Record) -> Ok | Error\<close>, a compare-free
  overwrite; the precondition chain is: the account resolves, then it is activated.
\<close>

definition getApiKeyByValue :: "store \<Rightarrow> jsstring \<Rightarrow> unit + api_key_record option" where
  "getApiKeyByValue st apiKeyValue =
     (if read_fails st then Inl ()
      else Inr (find (\<lambda>row. record_id row = apiKeyValue) (rows st)))"

definition isAlreadyActivated :: "api_key_record \<Rightarrow> bool" where
  "isAlreadyActivated apiKeyRecord = activated apiKeyRecord"

definition getActivatedApiKey :: "store \<Rightarrow> jsstring \<Rightarrow> jsstring \<Rightarrow> api_key_record option" where
  "getActivatedApiKey st apiKeyValue apiSecret =
     (case getApiKeyByValue st apiKeyValue of
        Inl _ \<Rightarrow> None
      | Inr None \<Rightarrow> None
      | Inr (Some apiKeyRecord) \<Rightarrow>
          if isAlreadyActivated apiKeyRecord then Some apiKeyRecord else None)"

text \<open>The first component tells whether the callback received an error.\<close>

definition updateApiKeyRecord :: "store \<Rightarrow> api_key_record \<Rightarrow> bool \<times> store" where
  "updateApiKeyRecord st apiKeyRecord =
     (if write_fails st then (True, st)
      else (False, st\<lparr>rows := apiKeyRecord
                # filter (\<lambda>row. record_id row \<noteq> record_id apiKeyRecord) (rows st)\<rparr>))"

text \<open>
  The mappings are plain objects. Reading \<open>mapping[name]\<close> gives the entry stored under
  the name or, when there is none, the member that the object inherits from
  \<open>Object.prototype\<close> under that name: a function or the prototype itself, which is
  truthy and has none of the properties of a credential record. Such a member is read
  as a credential record whose properties are all absent. \<open>delete mapping[name]\<close> and an
  assignment to \<open>mapping[name]\<close> act on the stored entries only.
\<close>

definition object_prototype_names :: "jsstring list" where
  "object_prototype_names =
     [js ''constructor'', js ''__defineGetter__'', js ''__defineSetter__'',
      js ''hasOwnProperty'', js ''__lookupGetter__'', js ''__lookupSetter__'',
      js ''isPrototypeOf'', js ''propertyIsEnumerable'', js ''toString'', js ''valueOf'',
      js ''__proto__'', js ''toLocaleString'']"

definition inherited :: "jsstring \<Rightarrow> bool" where
  "inherited name = (name \<in> set object_prototype_names)"

definition inherited_u2f_member :: u2f_entry where
  "inherited_u2f_member =
     \<lparr>encryptedAppId = None, encryptedRegistrationRequest = None, encryptedPublicKey = None,
      encryptedKeyHandle = None, encryptedAuthenticationRequest = None\<rparr>"

definition inherited_totp_member :: totp_entry where
  "inherited_totp_member = \<lparr>encryptedTotpKey = None\<rparr>"

text \<open>\<open>rec.u2f && rec.u2f[uuid]\<close> and \<open>rec.totp && rec.totp[uuid]\<close>.\<close>

definition u2f_lookup :: "api_key_record \<Rightarrow> jsstring \<Rightarrow> u2f_entry option" where
  "u2f_lookup apiKeyRecord u2fUuid =
     (case u2f apiKeyRecord of
        None \<Rightarrow> None
      | Some m \<Rightarrow>
          (case m u2fUuid of
             Some entry \<Rightarrow> Some entry
           | None \<Rightarrow> if inherited u2fUuid then Some inherited_u2f_member else None))"

definition totp_lookup :: "api_key_record \<Rightarrow> jsstring \<Rightarrow> totp_entry option" where
  "totp_lookup apiKeyRecord totpUuid =
     (case totp apiKeyRecord of
        None \<Rightarrow> None
      | Some m \<Rightarrow>
          (case m totpUuid of
             Some entry \<Rightarrow> Some entry
           | None \<Rightarrow> if inherited totpUuid then Some inherited_totp_member else None))"

text \<open>\<open>rec.u2f[uuid] = entry\<close> and \<open>rec.totp[uuid] = entry\<close>, on \<open>rec.u2f || {}\<close>.\<close>

definition u2f_assign :: "api_key_record \<Rightarrow> jsstring \<Rightarrow> u2f_entry \<Rightarrow> api_key_record" where
  "u2f_assign apiKeyRecord u2fUuid entry =
     apiKeyRecord\<lparr>u2f := Some ((case u2f apiKeyRecord of None \<Rightarrow> Map.empty | Some m \<Rightarrow> m)
                               (u2fUuid \<mapsto> entry))\<rparr>"

definition totp_assign :: "api_key_record \<Rightarrow> jsstring \<Rightarrow> totp_entry \<Rightarrow> api_key_record" where
  "totp_assign apiKeyRecord totpUuid entry =
     apiKeyRecord\<lparr>totp := Some ((case totp apiKeyRecord of None \<Rightarrow> Map.empty | Some m \<Rightarrow> m)
                                (totpUuid \<mapsto> entry))\<rparr>"

text \<open>
  \<open>var id = uuid.v4(); while (mapping[id]) { id = uuid.v4(); }\<close>: the successive values
  of \<open>uuid.v4()\<close> are an argument, and the loop returns the first one not in use. It has
  not returned when every value supplied is in use.
\<close>

fun fresh_uuid :: "(jsstring \<Rightarrow> bool) \<Rightarrow> jsstring list \<Rightarrow> jsstring option" where
  "fresh_uuid in_use [] = None"
| "fresh_uuid in_use (candidate # later) =
     (if in_use candidate then fresh_uuid in_use later else Some candidate)"

section \<open>Responses and collaborators\<close>

record u2f_req =
  req_version :: jsstring
  req_appId :: jsstring
  req_challenge :: jsstring
  req_keyHandle :: "jsstring option"

record u2f_result =
  errorMessage :: "jsstring option"
  result_publicKey :: jsstring
  result_keyHandle :: jsstring

datatype payload =
    Null
  | Valid200
  | AuthenticationResponse jsstring jsstring jsstring jsstring jsstring
  | RegistrationResponse jsstring u2f_req
  | TotpResponse jsstring jsstring jsstring

text \<open>
  Modelled from the spec: \<open>helpers/response.js\<close> is missing. \<open>returnError\<close> hands a status
  and a message to the caller, \<open>returnSuccess\<close> a payload. An operation can also end in an
  exception that nothing catches.
\<close>

datatype outcome = ReturnError nat jsstring | ReturnSuccess payload | Uncaught exn

text \<open>
  The libraries the managers call are parameters: the cipher, the u2f library
  (\<open>u2f.request\<close>, and \<open>u2f.checkSignature\<close> and \<open>u2f.checkRegistration\<close> together with the
  \<open>JSON.parse\<close> of their arguments), \<open>JSON.stringify\<close>, the speakeasy library
  (\<open>generateSecret\<close>, \<open>otpauthURL\<close>, the code of a secret at a time step), the QR renderer
  and the clock in milliseconds. \<open>u2f.checkSignature\<close> receives \<open>undefined\<close> for the public
  key where the source passes \<open>undefined\<close>. These functions are taken as total: an
  exception thrown by \<open>JSON.parse\<close> or inside a library is not part of the model.
\<close>

record env =
  cipher :: keystream
  u2f_request :: "jsstring \<Rightarrow> jsstring option \<Rightarrow> u2f_req"
  stringify :: "u2f_req \<Rightarrow> jsstring"
  checkSignature :: "jsstring \<Rightarrow> jsstring \<Rightarrow> jsstring option \<Rightarrow> u2f_result"
  checkRegistration :: "jsstring \<Rightarrow> jsstring \<Rightarrow> u2f_result"
  generateSecret :: jsstring
  otpauthURL :: "jsstring option \<Rightarrow> jsstring \<Rightarrow> jsstring \<Rightarrow> jsstring"
  toDataURL :: "jsstring \<Rightarrow> jsstring option"
  totp_token :: "jsstring \<Rightarrow> int \<Rightarrow> jsstring"
  now :: nat

definition unauthorized :: outcome where
  "unauthorized = ReturnError 401 (js ''Unauthorized'')"

definition internal_server_error :: outcome where
  "internal_server_error = ReturnError 500 (js ''Internal Server Error'')"

definition no_u2f_entry :: outcome where
  "no_u2f_entry = ReturnError 404 (js ''No U2F entry found with that uuid for that API Key.'')"

section \<open>models/u2f.js\<close>

text \<open>
  Each operation takes the store and returns what the caller receives together with the
  store afterwards. The record read from the store is changed in memory and reaches the
  store only through \<open>updateApiKeyRecord\<close>. Console output is left out.
\<close>

definition createAuthentication ::
  "env \<Rightarrow> byte list \<Rightarrow> jsstring \<Rightarrow> jsstring \<Rightarrow> jsstring \<Rightarrow> store \<Rightarrow> outcome \<times> store" where
  "createAuthentication e randomBytes apiKeyValue apiSecret u2fUuid st =
     (case getActivatedApiKey st apiKeyValue apiSecret of
        None \<Rightarrow> (unauthorized, st)
      | Some apiKeyRecord \<Rightarrow>
          if falsy u2fUuid then (unauthorized, st)
          else (case u2f_lookup apiKeyRecord u2fUuid of
            None \<Rightarrow> (no_u2f_entry, st)
          | Some entry \<Rightarrow>
              if absent (encryptedAppId entry) then (internal_server_error, st)
              else (case decrypt (cipher e) (the (encryptedAppId entry)) apiSecret of
                DecryptThrew x \<Rightarrow> (Uncaught x, st)
              | CallbackError err \<Rightarrow> (internal_server_error, st)
              | CallbackOk appId \<Rightarrow>
                  if absent (encryptedKeyHandle entry) then (internal_server_error, st)
                  else (case decrypt (cipher e) (the (encryptedKeyHandle entry)) apiSecret of
                    DecryptThrew x \<Rightarrow> (Uncaught x, st)
                  | CallbackError err \<Rightarrow> (internal_server_error, st)
                  | CallbackOk keyHandle \<Rightarrow>
                      (let authRequest = u2f_request e appId (Some keyHandle)
                       in case encrypt (cipher e) randomBytes (stringify e authRequest) apiSecret of
                            Inl x \<Rightarrow> (Uncaught x, st)
                          | Inr encrypted \<Rightarrow>
                              (case updateApiKeyRecord st
                                      (u2f_assign apiKeyRecord u2fUuid
                                         (entry\<lparr>encryptedAuthenticationRequest := Some encrypted\<rparr>)) of
                                 (True, st') \<Rightarrow> (internal_server_error, st')
                               | (False, st') \<Rightarrow>
                                   (ReturnSuccess (AuthenticationResponse u2fUuid
                                      (req_version authRequest) (req_challenge authRequest)
                                      appId keyHandle), st')))))))"

text \<open>
  \<open>createRegistration\<close> begins by logging \<open>'... for uuid: ' + u2fUuid\<close> (line 88). The
  identifiers bound at that place are the parameters of the function and the constants
  of the module; \<open>var u2fUuid\<close> belongs to the callback handed to \<open>getActivatedApiKey\<close>.
  Reading an identifier that is not bound throws a \<open>ReferenceError\<close>. The callback
  (lines 89 to 124) is \<open>createRegistration_callback\<close>.
\<close>

definition createRegistration_scope :: "string list" where
  "createRegistration_scope =
     [''apiKeyValue'', ''apiSecret'', ''appId'', ''callback'',
      ''apiKey'', ''encryption'', ''response'', ''u2f'', ''uuid'',
      ''module'', ''require'', ''console'']"

definition createRegistration_callback ::
  "env \<Rightarrow> jsstring list \<Rightarrow> byte list \<Rightarrow> byte list \<Rightarrow> jsstring \<Rightarrow> jsstring \<Rightarrow> jsstring \<Rightarrow> store
     \<Rightarrow> (outcome \<times> store) option" where
  "createRegistration_callback e uuids randomBytes1 randomBytes2 apiKeyValue apiSecret appId st =
     (case getActivatedApiKey st apiKeyValue apiSecret of
        None \<Rightarrow> Some (unauthorized, st)
      | Some apiKeyRecord \<Rightarrow>
          (let registrationRequest = u2f_request e appId None
           in case fresh_uuid (\<lambda>candidate. u2f_lookup apiKeyRecord candidate \<noteq> None) uuids of
                None \<Rightarrow> None
              | Some u2fUuid \<Rightarrow>
                  (case encrypt (cipher e) randomBytes1 appId apiSecret of
                     Inl x \<Rightarrow> Some (Uncaught x, st)
                   | Inr encAppId \<Rightarrow>
                       (case encrypt (cipher e) randomBytes2 (stringify e registrationRequest) apiSecret of
                          Inl x \<Rightarrow> Some (Uncaught x, st)
                        | Inr encRequest \<Rightarrow>
                            (case updateApiKeyRecord st
                                    (u2f_assign apiKeyRecord u2fUuid
                                       \<lparr>encryptedAppId = Some encAppId,
                                        encryptedRegistrationRequest = Some encRequest,
                                        encryptedPublicKey = None,
                                        encryptedKeyHandle = None,
                                        encryptedAuthenticationRequest = None\<rparr>) of
                               (True, st') \<Rightarrow> Some (internal_server_error, st')
                             | (False, st') \<Rightarrow>
                                 Some (ReturnSuccess (RegistrationResponse u2fUuid registrationRequest),
                                       st'))))))"

definition createRegistration ::
  "env \<Rightarrow> jsstring list \<Rightarrow> byte list \<Rightarrow> byte list \<Rightarrow> jsstring \<Rightarrow> jsstring \<Rightarrow> jsstring \<Rightarrow> store
     \<Rightarrow> (outcome \<times> store) option" where
  "createRegistration e uuids randomBytes1 randomBytes2 apiKeyValue apiSecret appId st =
     (if ''u2fUuid'' \<in> set createRegistration_scope
      then createRegistration_callback e uuids randomBytes1 randomBytes2 apiKeyValue apiSecret appId st
      else Some (Uncaught ReferenceError, st))"

definition delete ::
  "jsstring \<Rightarrow> jsstring \<Rightarrow> jsstring \<Rightarrow> store \<Rightarrow> outcome \<times> store" where
  "delete apiKeyValue apiSecret u2fUuid st =
     (case getActivatedApiKey st apiKeyValue apiSecret of
        None \<Rightarrow> (unauthorized, st)
      | Some apiKeyRecord \<Rightarrow>
          if falsy u2fUuid then (unauthorized, st)
          else (case u2f_lookup apiKeyRecord u2fUuid of
            None \<Rightarrow> (no_u2f_entry, st)
          | Some entry \<Rightarrow>
              (case updateApiKeyRecord st
                      (apiKeyRecord\<lparr>u2f := map_option (\<lambda>m. m(u2fUuid := None)) (u2f apiKeyRecord)\<rparr>) of
                 (True, st') \<Rightarrow> (internal_server_error, st')
               | (False, st') \<Rightarrow> (ReturnSuccess Null, st'))))"

text \<open>
  In \<open>validateAuthentication\<close> the callback of the second \<open>decrypt\<close> (line 206) does not
  look at its \<open>error\<close> argument: after a failed decryption \<open>publicKey\<close> is \<open>undefined\<close>
  and the signature check runs with it.
\<close>

definition validateAuthentication ::
  "env \<Rightarrow> jsstring \<Rightarrow> jsstring \<Rightarrow> jsstring \<Rightarrow> jsstring \<Rightarrow> store \<Rightarrow> outcome \<times> store" where
  "validateAuthentication e apiKeyValue apiSecret u2fUuid signResult st =
     (case getActivatedApiKey st apiKeyValue apiSecret of
        None \<Rightarrow> (unauthorized, st)
      | Some apiKeyRecord \<Rightarrow>
          if falsy u2fUuid then (unauthorized, st)
          else (case u2f_lookup apiKeyRecord u2fUuid of
            None \<Rightarrow> (no_u2f_entry, st)
          | Some entry \<Rightarrow>
              if absent (encryptedAuthenticationRequest entry) then (internal_server_error, st)
              else (case decrypt (cipher e) (the (encryptedAuthenticationRequest entry)) apiSecret of
                DecryptThrew x \<Rightarrow> (Uncaught x, st)
              | CallbackError err \<Rightarrow> (internal_server_error, st)
              | CallbackOk authenticationRequest \<Rightarrow>
                  if absent (encryptedPublicKey entry) then (internal_server_error, st)
                  else (case decrypt (cipher e) (the (encryptedPublicKey entry)) apiSecret of
                    DecryptThrew x \<Rightarrow> (Uncaught x, st)
                  | answer \<Rightarrow>
                      (let publicKey = (case answer of CallbackOk plain \<Rightarrow> Some plain | _ \<Rightarrow> None);
                           result = checkSignature e authenticationRequest signResult publicKey
                       in if \<not> absent (errorMessage result)
                          then (ReturnError 400 (the (errorMessage result)), st)
                          else (case updateApiKeyRecord st
                                       (u2f_assign apiKeyRecord u2fUuid
                                          (entry\<lparr>encryptedAuthenticationRequest := Some (js '' '')\<rparr>)) of
                                  (True, st') \<Rightarrow> (internal_server_error, st')
                                | (False, st') \<Rightarrow> (ReturnSuccess Valid200, st')))))))"

definition validateRegistration ::
  "env \<Rightarrow> byte list \<Rightarrow> byte list \<Rightarrow> jsstring \<Rightarrow> jsstring \<Rightarrow> jsstring \<Rightarrow> jsstring \<Rightarrow> store
     \<Rightarrow> outcome \<times> store" where
  "validateRegistration e randomBytes1 randomBytes2 apiKeyValue apiSecret u2fUuid signResult st =
     (case getActivatedApiKey st apiKeyValue apiSecret of
        None \<Rightarrow> (unauthorized, st)
      | Some apiKeyRecord \<Rightarrow>
          if falsy u2fUuid then (unauthorized, st)
          else (case u2f_lookup apiKeyRecord u2fUuid of
            None \<Rightarrow> (no_u2f_entry, st)
          | Some entry \<Rightarrow>
              if absent (encryptedRegistrationRequest entry) then (internal_server_error, st)
              else (case decrypt (cipher e) (the (encryptedRegistrationRequest entry)) apiSecret of
                DecryptThrew x \<Rightarrow> (Uncaught x, st)
              | CallbackError err \<Rightarrow> (internal_server_error, st)
              | CallbackOk registrationRequest \<Rightarrow>
                  (let result = checkRegistration e registrationRequest signResult
                   in if \<not> absent (errorMessage result) then (internal_server_error, st)
                      else (case encrypt (cipher e) randomBytes1 (result_publicKey result) apiSecret of
                        Inl x \<Rightarrow> (Uncaught x, st)
                      | Inr encPublicKey \<Rightarrow>
                          (case encrypt (cipher e) randomBytes2 (result_keyHandle result) apiSecret of
                             Inl x \<Rightarrow> (Uncaught x, st)
                           | Inr encKeyHandle \<Rightarrow>
                               (case updateApiKeyRecord st
                                       (u2f_assign apiKeyRecord u2fUuid
                                          (entry\<lparr>encryptedRegistrationRequest := None,
                                                 encryptedPublicKey := Some encPublicKey,
                                                 encryptedKeyHandle := Some encKeyHandle\<rparr>)) of
                                  (True, st') \<Rightarrow> (internal_server_error, st')
                                | (False, st') \<Rightarrow> (ReturnSuccess Null, st'))))))))"

section \<open>models/totp.js\<close>

text \<open>
  \<open>parseInt(string, 10)\<close>: white space at the start is skipped, one sign is read, and the
  longest run of decimal digits that follows is the number; without a digit the result
  is \<open>NaN\<close>, here \<open>None\<close>. The value is exact, as the JavaScript number is for the
  strings of at most 15 digits that are read here.
\<close>

definition is_white :: "nat \<Rightarrow> bool" where
  "is_white c =
     (c \<in> {9, 10, 11, 12, 13, 32, 160, 5760, 8232, 8233, 8239, 8287, 12288, 65279}
      \<or> (8192 \<le> c \<and> c \<le> 8202))"

definition is_digit :: "nat \<Rightarrow> bool" where
  "is_digit c = (48 \<le> c \<and> c \<le> 57)"

definition decimal_value :: "nat list \<Rightarrow> nat" where
  "decimal_value ds = foldl (\<lambda>acc c. acc * 10 + (c - 48)) 0 ds"

definition parseInt10 :: "jsstring \<Rightarrow> int option" where
  "parseInt10 s =
     (let trimmed = dropWhile is_white (map unat s);
          negative = (case trimmed of [] \<Rightarrow> False | c # rest \<Rightarrow> c = 45);
          unsigned = (case trimmed of
                        [] \<Rightarrow> []
                      | c # rest \<Rightarrow> if c = 45 \<or> c = 43 then rest else trimmed);
          ds = takeWhile is_digit unsigned
      in if ds = [] then None
         else Some (if negative then - int (decimal_value ds) else int (decimal_value ds)))"

text \<open>
  \<open>speakeasy.totp.verify\<close> with \<open>encoding: 'base32'\<close> and a \<open>window\<close>. The current counter
  is the clock in milliseconds divided by 1000 and by the step of 30 seconds, rounded
  down. The library moves the counter back by \<open>window\<close>, doubles the window, and hands
  over to its HOTP check: a token that is not six characters long is refused, the
  token is read with \<open>parseInt(token, 10)\<close> and refused when that is \<open>NaN\<close>, and it is
  accepted when the number is \<open>parseInt\<close> of the code of one of the counters tried. The
  code of a secret at a counter is the library's, a parameter.
\<close>

definition time_step :: "nat \<Rightarrow> int" where
  "time_step milliseconds = int (milliseconds div 30000)"

definition totp_verify :: "env \<Rightarrow> jsstring \<Rightarrow> jsstring \<Rightarrow> nat \<Rightarrow> bool" where
  "totp_verify e secret token window =
     (length token = 6
      \<and> (case parseInt10 token of
            None \<Rightarrow> False
          | Some number \<Rightarrow>
              list_ex (\<lambda>counter. parseInt10 (totp_token e secret counter) = Some number)
                [time_step (now e) - int window .. time_step (now e) + int window]))"

definition create ::
  "env \<Rightarrow> jsstring list \<Rightarrow> byte list \<Rightarrow> jsstring \<Rightarrow> jsstring \<Rightarrow> jsstring option \<Rightarrow> jsstring option
     \<Rightarrow> store \<Rightarrow> (outcome \<times> store) option" where
  "create e uuids randomBytes apiKeyValue apiSecret issuer label_option st =
     (if falsy apiKeyValue then Some (unauthorized, st)
      else if falsy apiSecret then Some (unauthorized, st)
      else (case getApiKeyByValue st apiKeyValue of
        Inl err \<Rightarrow> Some (ReturnError 500 (js ''Failed to retrieve API Key.''), st)
      | Inr None \<Rightarrow> Some (unauthorized, st)
      | Inr (Some apiKeyRecord) \<Rightarrow>
          if \<not> isAlreadyActivated apiKeyRecord then Some (unauthorized, st)
          else
            (let label = (case label_option of None \<Rightarrow> js ''SecretKey'' | Some l \<Rightarrow> l);
                 totpKey = generateSecret e;
                 otpAuthUrl =
                   (if \<not> absent issuer
                    then otpauthURL e issuer (the issuer @ [colon] @ label) totpKey
                    else otpauthURL e None label totpKey)
             in case toDataURL e otpAuthUrl of
                  None \<Rightarrow> Some (ReturnError 500 (js ''Failed to generate QR code.''), st)
                | Some dataUrl \<Rightarrow>
                    (case fresh_uuid (\<lambda>candidate. totp_lookup apiKeyRecord candidate \<noteq> None) uuids of
                       None \<Rightarrow> None
                     | Some totpUuid \<Rightarrow>
                         (case encrypt (cipher e) randomBytes totpKey apiSecret of
                            Inl x \<Rightarrow> Some (Uncaught x, st)
                          | Inr encrypted \<Rightarrow>
                              (case updateApiKeyRecord st
                                      (totp_assign apiKeyRecord totpUuid
                                         \<lparr>encryptedTotpKey = Some encrypted\<rparr>) of
                                 (True, st') \<Rightarrow>
                                   Some (ReturnError 500 (js ''Failed to create new TOTP entry.''), st')
                               | (False, st') \<Rightarrow>
                                   Some (ReturnSuccess (TotpResponse totpUuid totpKey dataUrl), st')))))))"

definition validate ::
  "env \<Rightarrow> jsstring \<Rightarrow> jsstring \<Rightarrow> jsstring \<Rightarrow> jsstring \<Rightarrow> store \<Rightarrow> outcome \<times> store" where
  "validate e apiKeyValue apiSecret totpUuid code st =
     (if falsy apiKeyValue then (unauthorized, st)
      else if falsy apiSecret then (unauthorized, st)
      else if falsy totpUuid then (unauthorized, st)
      else if falsy code then (ReturnError 400 (js ''code (as a string) is required''), st)
      else (case getApiKeyByValue st apiKeyValue of
        Inl err \<Rightarrow> (ReturnError 500 (js ''Error validating TOTP code.''), st)
      | Inr None \<Rightarrow> (unauthorized, st)
      | Inr (Some apiKeyRecord) \<Rightarrow>
          if \<not> isAlreadyActivated apiKeyRecord then (unauthorized, st)
          else (case totp_lookup apiKeyRecord totpUuid of
            None \<Rightarrow> (unauthorized, st)
          | Some entry \<Rightarrow>
              if absent (encryptedTotpKey entry)
              then (ReturnError 500 (js ''Error validating TOTP code.''), st)
              else (case decrypt (cipher e) (the (encryptedTotpKey entry)) apiSecret of
                DecryptThrew x \<Rightarrow> (Uncaught x, st)
              | CallbackError err \<Rightarrow> (ReturnError 500 (js ''Error validating TOTP code.''), st)
              | CallbackOk totpKey \<Rightarrow>
                  if \<not> totp_verify e totpKey code 1 then (ReturnError 401 (js ''Invalid''), st)
                  else (ReturnSuccess Valid200, st)))))"

section \<open>The two phases of a U2F credential\<close>

text \<open>
  A credential is pending registration or registered, never both: its registration
  request is present, or its public key and key handle are.
\<close>

definition pending_xor_registered :: "u2f_entry \<Rightarrow> bool" where
  "pending_xor_registered entry =
     ((\<not> absent (encryptedRegistrationRequest entry))
      \<noteq> (\<not> absent (encryptedPublicKey entry) \<and> \<not> absent (encryptedKeyHandle entry)))"

section \<open>The precondition chain\<close>

text \<open>
  The chain every entry point runs before it works on a credential: the account
  resolves and is activated; where the operation takes a UUID, the UUID is not empty
  and is a key of the mapping of its kind, that is, an entry is stored under it.
\<close>

definition u2f_key :: "api_key_record \<Rightarrow> jsstring \<Rightarrow> bool" where
  "u2f_key apiKeyRecord u2fUuid =
     (case u2f apiKeyRecord of None \<Rightarrow> False | Some m \<Rightarrow> m u2fUuid \<noteq> None)"

definition totp_key :: "api_key_record \<Rightarrow> jsstring \<Rightarrow> bool" where
  "totp_key apiKeyRecord totpUuid =
     (case totp apiKeyRecord of None \<Rightarrow> False | Some m \<Rightarrow> m totpUuid \<noteq> None)"

definition account_chain_fails :: "store \<Rightarrow> jsstring \<Rightarrow> bool" where
  "account_chain_fails st apiKeyValue =
     (case getApiKeyByValue st apiKeyValue of
        Inl err \<Rightarrow> True
      | Inr None \<Rightarrow> True
      | Inr (Some apiKeyRecord) \<Rightarrow> \<not> isAlreadyActivated apiKeyRecord)"

definition u2f_chain_fails :: "store \<Rightarrow> jsstring \<Rightarrow> jsstring \<Rightarrow> bool" where
  "u2f_chain_fails st apiKeyValue u2fUuid =
     (case getApiKeyByValue st apiKeyValue of
        Inl err \<Rightarrow> True
      | Inr None \<Rightarrow> True
      | Inr (Some apiKeyRecord) \<Rightarrow>
          \<not> isAlreadyActivated apiKeyRecord \<or> falsy u2fUuid
          \<or> \<not> u2f_key apiKeyRecord u2fUuid)"

definition totp_chain_fails :: "store \<Rightarrow> jsstring \<Rightarrow> jsstring \<Rightarrow> bool" where
  "totp_chain_fails st apiKeyValue totpUuid =
     (case getApiKeyByValue st apiKeyValue of
        Inl err \<Rightarrow> True
      | Inr None \<Rightarrow> True
      | Inr (Some apiKeyRecord) \<Rightarrow>
          \<not> isAlreadyActivated apiKeyRecord \<or> falsy totpUuid
          \<or> \<not> totp_key apiKeyRecord totpUuid)"

definition is_error :: "outcome \<Rightarrow> bool" where
  "is_error answer = (case answer of ReturnError status message \<Rightarrow> True | _ \<Rightarrow> False)"

section \<open>A small world for the examples\<close>

text \<open>
  One activated account \<open>key1\<close> whose secret decodes to 32 bytes. Its credentials are
  encrypted under a keystream of zero bytes with an IV of 16 zero bytes: \<open>u1\<close> is
  registered and awaits an authentication proof, \<open>u2\<close> awaits its registration proof,
  \<open>u3\<close> is like \<open>u1\<close> with a public key field that holds no colon, and \<open>t1\<close> is a TOTP
  credential. The u2f library accepts the proof \<open>good\<close> and answers every other one with
  \<open>Invalid signature\<close>; the clock stands in time step 3, and the codes of every seed
  are \<open>000002\<close>, \<open>000003\<close>, \<open>000004\<close> at the steps 2, 3, 4, \<open>067820\<close> at step 29 and
  \<open>999999\<close> elsewhere.
\<close>

definition zero_keystream :: keystream where
  "zero_keystream key iv position = 0"

definition demo_secret :: jsstring where
  "demo_secret = js ''AAAAAAAAAAAAAAAAAAAAAAAAAAAAAAAAAAAAAAAAAAA=''"

definition demo_iv :: "byte list" where
  "demo_iv = [0, 0, 0, 0, 0, 0, 0, 0, 0, 0, 0, 0, 0, 0, 0, 0]"

definition blob_req :: jsstring where
  "blob_req = js ''AAAAAAAAAAAAAAAAAAAAAA==:cmVx''"

definition blob_pk :: jsstring where
  "blob_pk = js ''AAAAAAAAAAAAAAAAAAAAAA==:cGs=''"

definition blob_kh :: jsstring where
  "blob_kh = js ''AAAAAAAAAAAAAAAAAAAAAA==:a2g=''"

definition blob_app :: jsstring where
  "blob_app = js ''AAAAAAAAAAAAAAAAAAAAAA==:YXBw''"

definition blob_seed :: jsstring where
  "blob_seed = js ''AAAAAAAAAAAAAAAAAAAAAA==:c2VlZA==''"

definition demo_check :: "jsstring \<Rightarrow> bool \<Rightarrow> u2f_result" where
  "demo_check proof key_known =
     \<lparr>errorMessage = (if proof = js ''good'' \<and> key_known then None
                       else Some (js ''Invalid signature'')),
      result_publicKey = js ''pk'',
      result_keyHandle = js ''kh''\<rparr>"

definition demo_token :: "jsstring \<Rightarrow> int \<Rightarrow> jsstring" where
  "demo_token secret step =
     (if step = 2 then js ''000002'' else if step = 3 then js ''000003''
      else if step = 4 then js ''000004'' else if step = 29 then js ''067820''
      else js ''999999'')"

definition demo_env :: env where
  "demo_env =
     \<lparr>cipher = zero_keystream,
      u2f_request = (\<lambda>appId handle.
        \<lparr>req_version = js ''U2F_V2'', req_appId = appId, req_challenge = js ''c'',
         req_keyHandle = handle\<rparr>),
      stringify = req_challenge,
      checkSignature = (\<lambda>request proof key. demo_check proof (key \<noteq> None)),
      checkRegistration = (\<lambda>request proof. demo_check proof True),
      generateSecret = js ''JBSWY3DPEHPK3PXP'',
      otpauthURL = (\<lambda>issuer label secret. label @ secret),
      toDataURL = (\<lambda>url. Some url),
      totp_token = demo_token,
      now = 90000\<rparr>"

definition key1 :: jsstring where
  "key1 = [107, 49]"

definition u1 :: jsstring where
  "u1 = [117, 49]"

definition u2 :: jsstring where
  "u2 = [117, 50]"

definition u3 :: jsstring where
  "u3 = [117, 51]"

definition t1 :: jsstring where
  "t1 = [116, 49]"

definition registered_entry :: u2f_entry where
  "registered_entry =
     \<lparr>encryptedAppId = Some blob_app,
      encryptedRegistrationRequest = None,
      encryptedPublicKey = Some blob_pk,
      encryptedKeyHandle = Some blob_kh,
      encryptedAuthenticationRequest = Some blob_req\<rparr>"

definition pending_entry :: u2f_entry where
  "pending_entry =
     \<lparr>encryptedAppId = Some blob_app,
      encryptedRegistrationRequest = Some blob_req,
      encryptedPublicKey = None,
      encryptedKeyHandle = None,
      encryptedAuthenticationRequest = None\<rparr>"

definition demo_record :: api_key_record where
  "demo_record =
     \<lparr>record_id = key1,
      activated = True,
      totp = Some [t1 \<mapsto> \<lparr>encryptedTotpKey = Some blob_seed\<rparr>],
      u2f = Some [u1 \<mapsto> registered_entry,
                  u2 \<mapsto> pending_entry,
                  u3 \<mapsto> registered_entry\<lparr>encryptedPublicKey := Some (js ''x'')\<rparr>]\<rparr>"

definition demo_store :: store where
  "demo_store = \<lparr>rows = [demo_record], read_fails = False, write_fails = False\<rparr>"

section \<open>Facts about the codecs and the cipher\<close>

subsection \<open>Base64 decodes what it encoded\<close>

lemma b64chr_not_pad: "n < 64 \<Longrightarrow> b64chr n \<noteq> 61"
  by (auto simp: b64chr_def)

lemma unbase64_b64chr: "n < 64 \<Longrightarrow> unbase64 (b64chr n) = Some n"
  by (auto simp: b64chr_def unbase64_def)

lemma b64chr_not_colon: "b64chr n \<noteq> 58"
  by (auto simp: b64chr_def)

lemma b64chr_small: "b64chr n < 65536"
  by (auto simp: b64chr_def)

lemma sextets_recompose:
  "(n div 262144) * 262144 + (n div 4096 mod 64) * 4096 + (n div 64 mod 64) * 64 + n mod 64 = (n::nat)"
proof -
  define q1 where "q1 = n div 64"
  define q2 where "q2 = q1 div 64"
  define q3 where "q3 = q2 div 64"
  have d2: "n div 4096 = q2"
    unfolding q2_def q1_def by (simp add: div_mult2_eq [symmetric])
  have d3: "n div 262144 = q3"
    unfolding q3_def q2_def q1_def by (simp add: div_mult2_eq [symmetric])
  have e1: "n = q1 * 64 + n mod 64"
    unfolding q1_def by simp
  have e2: "q1 = q2 * 64 + q1 mod 64"
    unfolding q2_def by simp
  have e3: "q2 = q3 * 64 + q2 mod 64"
    unfolding q3_def by simp
  have "q3 * 262144 + (q2 mod 64) * 4096 + (q1 mod 64) * 64 + n mod 64 = n"
    using e1 e2 e3 by linarith
  then show ?thesis
    by (simp add: d2 d3 q1_def [symmetric])
qed

lemma three_bytes:
  assumes "a < 256" "b < 256" "c < (256::nat)"
  shows "(a * 65536 + b * 256 + c) div 262144 < 64"
    "(a * 65536 + b * 256 + c) div 65536 mod 256 = a"
    "(a * 65536 + b * 256 + c) div 256 mod 256 = b"
    "(a * 65536 + b * 256 + c) mod 256 = c"
proof -
  have "a * 65536 + b * 256 + c < 64 * 262144"
    using assms by linarith
  then show "(a * 65536 + b * 256 + c) div 262144 < 64"
    by (simp add: less_mult_imp_div_less)
  have low: "b * 256 + c < 65536"
    using assms by linarith
  have "(a * 65536 + (b * 256 + c)) div 65536 = a"
    using low by simp
  then show "(a * 65536 + b * 256 + c) div 65536 mod 256 = a"
    using assms by (simp add: add.assoc)
  have eq: "a * 65536 + b * 256 + c = (a * 256 + b) * 256 + c"
    by simp
  have "((a * 256 + b) * 256 + c) div 256 = a * 256 + b"
    using assms by simp
  then have "(a * 65536 + b * 256 + c) div 256 = a * 256 + b"
    by (simp only: eq)
  then show "(a * 65536 + b * 256 + c) div 256 mod 256 = b"
    using assms by simp
  have "((a * 256 + b) * 256 + c) mod 256 = c mod 256"
    by (rule mod_mult_self3)
  then have "((a * 256 + b) * 256 + c) mod 256 = c"
    using assms by (simp only: mod_less)
  then show "(a * 65536 + b * 256 + c) mod 256 = c"
    by (simp only: eq)
qed


lemma sextets_simps:
  "sextets [] = []"
  "sextets (61 # cs) = []"
  "n < 64 \<Longrightarrow> sextets (b64chr n # cs) = n # sextets cs"
  by (simp_all add: sextets_def List.map_filter_simps b64chr_not_pad unbase64_b64chr)

lemma group_of_four:
  fixes n :: nat
  assumes "a < 256" "b < 256" "c < 256" and n: "n = a * 65536 + b * 256 + c"
  shows "b64_groups (n div 262144 # n div 4096 mod 64 # n div 64 mod 64 # n mod 64 # rest)
           = a # b # c # b64_groups rest"
proof -
  have "b64_groups (n div 262144 # n div 4096 mod 64 # n div 64 mod 64 # n mod 64 # rest)
          = n div 65536 mod 256 # n div 256 mod 256 # n mod 256 # b64_groups rest"
    by (simp only: b64_groups.simps Let_def sextets_recompose)
  then show ?thesis
    unfolding n using three_bytes [OF assms(1-3)] by (simp only:)
qed

lemma group_of_three:
  fixes n :: nat
  assumes "a < 256" "b < 256" and n: "n = a * 65536 + b * 256"
  shows "b64_groups [n div 262144, n div 4096 mod 64, n div 64 mod 64] = [a, b]"
proof -
  have n0: "n = a * 65536 + b * 256 + 0"
    by (simp add: n)
  have "n = (a * 1024 + b * 4) * 64"
    by (simp add: n)
  then have "n mod 64 = 0"
    by (simp only: mod_mult_self2_is_0)
  with sextets_recompose [of n]
  have "(n div 262144) * 262144 + (n div 4096 mod 64) * 4096 + (n div 64 mod 64) * 64 = n"
    by simp
  then have "b64_groups [n div 262144, n div 4096 mod 64, n div 64 mod 64]
          = [n div 65536 mod 256, n div 256 mod 256]"
    by (simp only: b64_groups.simps Let_def)
  moreover have z: "(0::nat) < 256"
    by simp
  ultimately show ?thesis
    unfolding n0 by (simp only: three_bytes [OF assms(1,2) z])
qed

lemma group_of_two:
  fixes n :: nat
  assumes "a < 256" and n: "n = a * 65536"
  shows "b64_groups [n div 262144, n div 4096 mod 64] = [a]"
proof -
  have n0: "n = a * 65536 + 0 * 256 + 0"
    by (simp add: n)
  have "n = (a * 1024) * 64"
    by (simp add: n)
  then have "n mod 64 = 0" and "n div 64 = (a * 16) * 64"
    by (simp_all only: mod_mult_self2_is_0)
  then have "n mod 64 = 0" "n div 64 mod 64 = 0"
    by (simp_all only: mod_mult_self2_is_0)
  with sextets_recompose [of n]
  have "(n div 262144) * 262144 + (n div 4096 mod 64) * 4096 = n"
    by simp
  then have "b64_groups [n div 262144, n div 4096 mod 64] = [n div 65536 mod 256]"
    by (simp only: b64_groups.simps Let_def)
  moreover have z: "(0::nat) < 256"
    by simp
  ultimately show ?thesis
    unfolding n0 by (simp only: three_bytes [OF assms(1) z z])
qed


lemma b64_roundtrip_nat:
  "\<forall>b\<in>set bs. b < 256 \<Longrightarrow> b64_groups (sextets (b64_encode_nat bs)) = bs"
proof (induction bs rule: b64_encode_nat.induct)
  case (1 a b c rest)
  define n where "n = a * 65536 + b * 256 + c"
  have bytes: "a < 256" "b < 256" "c < 256"
    using "1.prems" by simp_all
  have top: "n div 262144 < 64"
    unfolding n_def by (rule three_bytes(1) [OF bytes])
  have enc: "b64_encode_nat (a # b # c # rest)
      = b64chr (n div 262144) # b64chr (n div 4096 mod 64) # b64chr (n div 64 mod 64)
        # b64chr (n mod 64) # b64_encode_nat rest"
    by (simp only: b64_encode_nat.simps Let_def n_def)
  have "sextets (b64_encode_nat (a # b # c # rest))
      = n div 262144 # n div 4096 mod 64 # n div 64 mod 64 # n mod 64
        # sextets (b64_encode_nat rest)"
    unfolding enc by (simp add: sextets_simps top)
  then have "b64_groups (sextets (b64_encode_nat (a # b # c # rest)))
      = a # b # c # b64_groups (sextets (b64_encode_nat rest))"
    by (simp only: group_of_four [OF bytes n_def])
  moreover have "b64_groups (sextets (b64_encode_nat rest)) = rest"
    using "1.IH" [OF refl] "1.prems" by simp
  ultimately show ?case by simp
next
  case (2 a b)
  define n where "n = a * 65536 + b * 256"
  have bytes: "a < 256" "b < 256" "(0::nat) < 256"
    using "2.prems" by simp_all
  have top: "n div 262144 < 64"
    using three_bytes(1) [OF bytes] by (simp add: n_def)
  have enc: "b64_encode_nat [a, b]
      = [b64chr (n div 262144), b64chr (n div 4096 mod 64), b64chr (n div 64 mod 64), 61]"
    by (simp only: b64_encode_nat.simps Let_def n_def)
  have "sextets (b64_encode_nat [a, b]) = [n div 262144, n div 4096 mod 64, n div 64 mod 64]"
    unfolding enc by (simp add: sextets_simps top)
  then show ?case
    by (simp only: group_of_three [OF bytes(1,2) n_def])
next
  case (3 a)
  define n where "n = a * 65536"
  have bytes: "a < 256" "(0::nat) < 256"
    using "3.prems" by simp_all
  have top: "n div 262144 < 64"
    using three_bytes(1) [OF bytes(1) bytes(2) bytes(2)] by (simp add: n_def)
  have enc: "b64_encode_nat [a] = [b64chr (n div 262144), b64chr (n div 4096 mod 64), 61, 61]"
    by (simp only: b64_encode_nat.simps Let_def n_def)
  have "sextets (b64_encode_nat [a]) = [n div 262144, n div 4096 mod 64]"
    unfolding enc by (simp add: sextets_simps top)
  then show ?case
    by (simp only: group_of_two [OF bytes(1) n_def])
next
  case 4
  show ?case by (simp add: sextets_simps)
qed

lemma b64_encode_chars:
  "c \<in> set (b64_encode_nat bs) \<Longrightarrow> c < 65536 \<and> c \<noteq> 58"
proof (induction bs arbitrary: c rule: b64_encode_nat.induct)
  case (1 a b c' rest)
  then show ?case
    using b64chr_small b64chr_not_colon by (auto simp: Let_def)
next
  case (2 a b)
  then show ?case
    using b64chr_small b64chr_not_colon by (auto simp: Let_def)
next
  case (3 a)
  then show ?case
    using b64chr_small b64chr_not_colon by (auto simp: Let_def)
next
  case 4
  then show ?case by simp
qed

lemma unat_of_nat_chars:
  "\<forall>c\<in>set cs. c < 65536 \<Longrightarrow> map unat (map of_nat cs :: 16 word list) = cs"
  by (induction cs) (simp_all add: unat_of_nat)

lemma unat_of_nat_bytes:
  "\<forall>b\<in>set bs. b < 256 \<Longrightarrow> map unat (map of_nat bs :: 8 word list) = bs"
  by (induction bs) (simp_all add: unat_of_nat)

lemma byte_bound: "\<forall>b\<in>set (map unat (buf :: 8 word list)). b < 256"
proof
  fix b assume "b \<in> set (map unat buf)"
  then obtain w :: "8 word" where "b = unat w" by auto
  then show "b < 256"
    using unsigned_less [of w, where 'a = nat] by simp
qed

lemma unit_bound: "\<forall>u\<in>set (map unat (s :: 16 word list)). u < 65536"
proof
  fix u assume "u \<in> set (map unat s)"
  then obtain w :: "16 word" where "u = unat w" by auto
  then show "u < 65536"
    using unsigned_less [of w, where 'a = nat] by simp
qed

lemma b64chr_low: "b64chr n < 256"
  by (auto simp: b64chr_def)

lemma b64_encode_low: "c \<in> set (b64_encode_nat bs) \<Longrightarrow> c < 256"
proof (induction bs arbitrary: c rule: b64_encode_nat.induct)
  case (1 a b c' rest)
  then show ?case
    using b64chr_low by (auto simp: Let_def)
next
  case (2 a b)
  then show ?case
    using b64chr_low by (auto simp: Let_def)
next
  case (3 a)
  then show ?case
    using b64chr_low by (auto simp: Let_def)
next
  case 4
  then show ?case by simp
qed

lemma low_byte_chars:
  "\<forall>c\<in>set cs. c < 256
   \<Longrightarrow> map (\<lambda>unit. unat unit mod 256) (map of_nat cs :: 16 word list) = cs"
  by (induction cs) (simp_all add: unat_of_nat)

lemma from_to_base64: "from_base64 (to_base64 buf) = buf"
proof -
  have chars: "\<forall>c\<in>set (b64_encode_nat (map unat buf)). c < 256"
    using b64_encode_low by blast
  have "from_base64 (to_base64 buf)
          = map of_nat (b64_groups (sextets (b64_encode_nat (map unat buf))))"
    by (simp only: from_base64_def to_base64_def low_byte_chars [OF chars]
        b64_decode_nat_def)
  also have "\<dots> = map of_nat (map unat buf)"
    by (simp only: b64_roundtrip_nat [OF byte_bound])
  also have "\<dots> = buf"
    by (simp add: map_idI)
  finally show ?thesis .
qed

lemma colon_not_in_base64: "colon \<notin> set (to_base64 buf)"
proof
  assume "colon \<in> set (to_base64 buf)"
  then obtain c where c: "c \<in> set (b64_encode_nat (map unat buf))"
    and eq: "(of_nat c :: 16 word) = 58"
    by (auto simp: to_base64_def colon_def)
  from b64_encode_chars [OF c] have "c < 65536" "c \<noteq> 58"
    by simp_all
  moreover from eq have "unat (of_nat c :: 16 word) = 58"
    by simp
  ultimately show False
    by (simp add: unat_of_nat)
qed

subsection \<open>UTF-8 decodes what it encoded from a well-formed string\<close>

lemma decode_one_byte:
  assumes "c < 128"
  shows "utf8_decode_nat (utf8_bytes c @ rest) = utf16_units c @ utf8_decode_nat rest"
  using assms by (simp add: utf8_bytes_def utf16_units_def utf8_step_def)

lemma decode_two_bytes:
  assumes "128 \<le> c" "c < 2048"
  shows "utf8_decode_nat (utf8_bytes c @ rest) = utf16_units c @ utf8_decode_nat rest"
proof -
  define q where "q = c div 64"
  define r where "r = c mod 64"
  have c: "c = q * 64 + r" and r: "r < 64"
    by (simp_all add: q_def r_def)
  have q: "2 \<le> q" "q < 32"
    using assms c r by linarith+
  have bytes: "utf8_bytes c = [192 + q, 128 + r]"
    using assms by (simp add: utf8_bytes_def q_def r_def)
  have "utf8_step (192 + q) ((128 + r) # rest) = ([q * 64 + r], rest)"
    using q r by (simp add: utf8_step_def cont_def)
  then show ?thesis
    using assms by (simp add: bytes utf16_units_def c [symmetric])
qed


lemma decode_three_bytes:
  assumes "2048 \<le> c" "c < 65536" "\<not> is_high c" "\<not> is_low c"
  shows "utf8_decode_nat (utf8_bytes c @ rest) = utf16_units c @ utf8_decode_nat rest"
proof -
  define q1 where "q1 = c div 64"
  define r where "r = c mod 64"
  define q2 where "q2 = q1 div 64"
  define m where "m = q1 mod 64"
  have c: "c = q1 * 64 + r" and r: "r < 64"
    by (simp_all add: q1_def r_def)
  have q1: "q1 = q2 * 64 + m" and m: "m < 64"
    by (simp_all add: q2_def m_def)
  have d2: "c div 4096 = q2"
    unfolding q2_def q1_def by (simp add: div_mult2_eq [symmetric])
  have whole: "c = q2 * 4096 + m * 64 + r"
    using c q1 by linarith
  have q2: "q2 < 16"
    using assms(2) whole by linarith
  have low: "q2 = 0 \<Longrightarrow> 32 \<le> m"
    using assms(1) whole r by linarith
  have "c < 55296 \<or> 57343 < c"
    using assms(3,4) by (auto simp: is_high_def is_low_def)
  then have high: "q2 = 13 \<Longrightarrow> m < 32"
    using whole r m by linarith
  have bytes: "utf8_bytes c = [224 + q2, 128 + m, 128 + r]"
    using assms by (simp add: utf8_bytes_def d2 q1_def [symmetric] m_def r_def)
  have "utf8_step (224 + q2) ((128 + m) # (128 + r) # rest) = ([q2 * 4096 + m * 64 + r], rest)"
    using q2 m r low high by (auto simp: utf8_step_def cont_def)
  then show ?thesis
    using assms by (simp add: bytes utf16_units_def whole [symmetric])
qed

lemma decode_four_bytes:
  assumes "65536 \<le> c" "c < 1114112"
  shows "utf8_decode_nat (utf8_bytes c @ rest) = utf16_units c @ utf8_decode_nat rest"
proof -
  define q1 where "q1 = c div 64"
  define r where "r = c mod 64"
  define q2 where "q2 = q1 div 64"
  define m1 where "m1 = q1 mod 64"
  define q3 where "q3 = q2 div 64"
  define m2 where "m2 = q2 mod 64"
  have c: "c = q1 * 64 + r" and r: "r < 64"
    by (simp_all add: q1_def r_def)
  have q1: "q1 = q2 * 64 + m1" and m1: "m1 < 64"
    by (simp_all add: q2_def m1_def)
  have q2: "q2 = q3 * 64 + m2" and m2: "m2 < 64"
    by (simp_all add: q3_def m2_def)
  have d2: "c div 4096 = q2"
    unfolding q2_def q1_def by (simp add: div_mult2_eq [symmetric])
  have d3: "c div 262144 = q3"
    unfolding q3_def q2_def q1_def by (simp add: div_mult2_eq [symmetric])
  have whole: "c = q3 * 262144 + m2 * 4096 + m1 * 64 + r"
    using c q1 q2 by linarith
  have q3: "q3 < 5"
    using assms(2) whole by linarith
  have low: "q3 = 0 \<Longrightarrow> 16 \<le> m2"
    using assms(1) whole r m1 by linarith
  have high: "q3 = 4 \<Longrightarrow> m2 < 16"
    using assms(2) whole by linarith
  have bytes: "utf8_bytes c = [240 + q3, 128 + m2, 128 + m1, 128 + r]"
    using assms by (simp add: utf8_bytes_def d2 d3 q1_def [symmetric] m1_def m2_def r_def)
  have "utf8_step (240 + q3) ((128 + m2) # (128 + m1) # (128 + r) # rest)
          = (utf16_units (q3 * 262144 + m2 * 4096 + m1 * 64 + r), rest)"
    using q3 m2 m1 r low high by (auto simp: utf8_step_def cont_def)
  then show ?thesis
    by (simp add: bytes whole [symmetric])
qed

lemma decode_scalar:
  assumes "c < 1114112" "\<not> is_high c" "\<not> is_low c"
  shows "utf8_decode_nat (utf8_bytes c @ rest) = utf16_units c @ utf8_decode_nat rest"
proof -
  consider "c < 128" | "128 \<le> c \<and> c < 2048" | "2048 \<le> c \<and> c < 65536" | "65536 \<le> c"
    by linarith
  then show ?thesis
  proof cases
    case 1
    then show ?thesis by (rule decode_one_byte)
  next
    case 2
    then show ?thesis by (simp add: decode_two_bytes)
  next
    case 3
    then show ?thesis using assms by (simp add: decode_three_bytes)
  next
    case 4
    then show ?thesis using assms by (simp add: decode_four_bytes)
  qed
qed

lemma utf8_bytes_small: "c < 1114112 \<Longrightarrow> b \<in> set (utf8_bytes c) \<Longrightarrow> b < 256"
proof -
  assume c: "c < 1114112" and b: "b \<in> set (utf8_bytes c)"
  have "c div 64 < 32" if "c < 2048"
    using that by (simp add: less_mult_imp_div_less)
  moreover have "c div 4096 < 16" if "c < 65536"
    using that by (simp add: less_mult_imp_div_less)
  moreover have "c div 262144 < 16"
    using c by (simp add: less_mult_imp_div_less)
  moreover have "x mod 64 < 64" for x :: nat
    by simp
  ultimately show ?thesis
    using b by (auto simp: utf8_bytes_def split: if_splits intro: add_strict_mono less_imp_le)
qed


lemma surrogate_pair:
  assumes "is_high u" "is_low v"
  defines "c \<equiv> 65536 + (u - 55296) * 1024 + (v - 56320)"
  shows "c < 1114112" "\<not> is_high c" "\<not> is_low c" "utf16_units c = [u, v]"
proof -
  define h where "h = u - 55296"
  define l where "l = v - 56320"
  have h: "h < 1024" "u = 55296 + h"
    using assms(1) by (auto simp: is_high_def h_def)
  have l: "l < 1024" "v = 56320 + l"
    using assms(2) by (auto simp: is_low_def l_def)
  have c: "c = 65536 + (h * 1024 + l)"
    by (simp add: c_def h_def l_def)
  show "c < 1114112"
    using h(1) l(1) c by linarith
  show "\<not> is_high c" "\<not> is_low c"
    using c by (simp_all add: is_high_def is_low_def)
  have "(h * 1024 + l) div 1024 = h" "(h * 1024 + l) mod 1024 = l"
    using l(1) by simp_all
  then show "utf16_units c = [u, v]"
    by (simp add: utf16_units_def c h(2) l(2))
qed

lemma utf8_roundtrip_nat:
  "well_formed us \<Longrightarrow> \<forall>u\<in>set us. u < 65536
   \<Longrightarrow> utf8_decode_nat (utf8_encode_nat us) = us"
proof (induction us rule: well_formed.induct)
  case 1
  show ?case by (simp add: utf8_encode_nat_def)
next
  case (2 u)
  then have "utf8_decode_nat (utf8_bytes u @ []) = utf16_units u @ utf8_decode_nat []"
    by (intro decode_scalar) simp_all
  with 2 show ?case
    by (simp add: utf8_encode_nat_def utf16_units_def)
next
  case (3 u v rest)
  show ?case
  proof (cases "is_high u")
    case True
    with 3 have low: "is_low v" and rest: "well_formed rest" "\<forall>x\<in>set rest. x < 65536"
      by simp_all
    let ?c = "65536 + (u - 55296) * 1024 + (v - 56320)"
    have enc: "utf8_encode_nat (u # v # rest) = utf8_bytes ?c @ utf8_encode_nat rest"
      using True low by (simp add: utf8_encode_nat_def)
    have "utf8_decode_nat (utf8_bytes ?c @ utf8_encode_nat rest)
            = utf16_units ?c @ utf8_decode_nat (utf8_encode_nat rest)"
      by (rule decode_scalar) (rule surrogate_pair [OF True low])+
    then show ?thesis
      using "3.IH"(1) [OF True rest] surrogate_pair(4) [OF True low] by (simp add: enc)
  next
    case False
    with 3 have u: "\<not> is_low u" "u < 65536" and rest: "well_formed (v # rest)"
        "\<forall>x\<in>set (v # rest). x < 65536"
      by simp_all
    have enc: "utf8_encode_nat (u # v # rest) = utf8_bytes u @ utf8_encode_nat (v # rest)"
      using False u by (simp add: utf8_encode_nat_def)
    have "utf8_decode_nat (utf8_bytes u @ utf8_encode_nat (v # rest))
            = utf16_units u @ utf8_decode_nat (utf8_encode_nat (v # rest))"
      using False u by (intro decode_scalar) simp_all
    then show ?thesis
      using "3.IH"(2) [OF False rest] u by (simp add: enc utf16_units_def)
  qed
qed

lemma code_points_small:
  "\<forall>u\<in>set us. u < 65536 \<Longrightarrow> \<forall>c\<in>set (utf16_code_points us). c < 1114112"
proof (induction us rule: utf16_code_points.induct)
  case 1
  show ?case by simp
next
  case (2 u)
  then show ?case by simp
next
  case (3 u v rest)
  then show ?case
    using surrogate_pair(1) [of u v] by auto
qed

lemma utf8_encode_nat_small:
  "\<forall>u\<in>set us. u < 65536 \<Longrightarrow> \<forall>b\<in>set (utf8_encode_nat us). b < 256"
  using code_points_small [of us] utf8_bytes_small
  by (auto simp: utf8_encode_nat_def)


lemma utf8_recodes:
  "utf8_decode (utf8_encode s) = map of_nat (utf8_decode_nat (utf8_encode_nat (map unat s)))"
  by (simp only: utf8_decode_def utf8_encode_def
      unat_of_nat_bytes [OF utf8_encode_nat_small [OF unit_bound]])

lemma utf8_roundtrip:
  assumes "well_formed_string s"
  shows "utf8_decode (utf8_encode s) = s"
proof -
  have "utf8_decode_nat (utf8_encode_nat (map unat s)) = map unat s"
    using assms unit_bound by (intro utf8_roundtrip_nat) (simp_all add: well_formed_string_def)
  then show ?thesis
    by (simp add: utf8_recodes map_idI)
qed

lemma lone_surrogate_replaced: "utf8_decode (utf8_encode [55296]) = [65533]"
  by (simp add: utf8_recodes utf8_encode_nat_def is_high_def utf8_bytes_def utf8_step_def
      cont_def)

subsection \<open>Splitting the blob and running the keystream twice\<close>

lemma js_split_none: "sep \<notin> set b \<Longrightarrow> js_split sep b = [b]"
  by (induction b) auto

lemma js_split_two:
  "sep \<notin> set a \<Longrightarrow> sep \<notin> set b \<Longrightarrow> js_split sep (a @ sep # b) = [a, b]"
  by (induction a) (auto simp: js_split_none)

lemma aes_256_ctr_length: "length (aes_256_ctr ks key iv data) = length data"
  by (simp add: aes_256_ctr_def)

lemma aes_256_ctr_twice: "aes_256_ctr ks key iv (aes_256_ctr ks key iv data) = data"
proof (rule nth_equalityI)
  show "length (aes_256_ctr ks key iv (aes_256_ctr ks key iv data)) = length data"
    by (simp add: aes_256_ctr_length)
next
  fix i assume "i < length (aes_256_ctr ks key iv (aes_256_ctr ks key iv data))"
  then have i: "i < length data"
    by (simp add: aes_256_ctr_length)
  have "(data ! i XOR ks key iv i) XOR ks key iv i = data ! i"
    by (simp add: xor.assoc)
  with i show "aes_256_ctr ks key iv (aes_256_ctr ks key iv data) ! i = data ! i"
    by (simp add: aes_256_ctr_def)
qed

lemma encrypt_blob:
  assumes "length (from_base64 k) = 32" and "length randomBytes = 16"
  shows "encrypt ks randomBytes s k
           = Inr (to_base64 randomBytes @ colon
                  # to_base64 (aes_256_ctr ks (from_base64 k) randomBytes (utf8_encode s)))"
  using assms by (simp add: encrypt_def)

lemma decrypt_blob:
  assumes "length (from_base64 k) = 32" and "length randomBytes = 16"
  shows "decrypt ks (to_base64 randomBytes @ colon
                     # to_base64 (aes_256_ctr ks (from_base64 k) randomBytes (utf8_encode s))) k
           = CallbackOk (utf8_decode (utf8_encode s))"
  using assms
  by (simp add: decrypt_def js_split_two colon_not_in_base64 from_to_base64 aes_256_ctr_twice)


section \<open>Facts about the store and the small world\<close>

lemmas outcome_defs = unauthorized_def internal_server_error_def no_u2f_entry_def

lemma getApiKeyByValue_id:
  "getApiKeyByValue st k = Inr (Some r) \<Longrightarrow> record_id r = k"
  by (auto simp: getApiKeyByValue_def find_Some_iff split: if_splits)

lemma getActivatedApiKey_id:
  "getActivatedApiKey st k s = Some r \<Longrightarrow> record_id r = k"
  by (auto simp: getActivatedApiKey_def dest: getApiKeyByValue_id
      split: sum.splits option.splits if_splits)

lemma get_after_update:
  assumes "getActivatedApiKey st k s = Some r" and "record_id r' = k"
    and "activated r' = activated r" and "updateApiKeyRecord st r' = (False, st')"
  shows "getActivatedApiKey st' k s' = Some r'"
  using assms
  by (auto simp: getActivatedApiKey_def getApiKeyByValue_def updateApiKeyRecord_def
      isAlreadyActivated_def split: if_splits sum.splits option.splits)

lemma update_failed_frame: "updateApiKeyRecord st r = (True, st') \<Longrightarrow> st' = st"
  by (auto simp: updateApiKeyRecord_def split: if_splits)

lemma js_split_length: "length (js_split sep xs) = Suc (count_list xs sep)"
  by (induction xs) (auto split: list.splits)

lemma decrypt_no_colon:
  "count_list blob colon \<noteq> 1
   \<Longrightarrow> decrypt ks blob k = CallbackError (js ''Unable to decrypt the given data.'')"
proof -
  assume "count_list blob colon \<noteq> 1"
  then have "length (js_split colon blob) \<noteq> 2"
    by (simp add: js_split_length)
  then show ?thesis
    by (auto simp: decrypt_def split: list.splits)
qed

lemma decrypt_space:
  "decrypt ks (js '' '') k = CallbackError (js ''Unable to decrypt the given data.'')"
  by (rule decrypt_no_colon) (simp add: js_def colon_def)

lemma decrypt_x:
  "decrypt ks (js ''x'') k = CallbackError (js ''Unable to decrypt the given data.'')"
  by (rule decrypt_no_colon) (simp add: js_def colon_def)

lemma demo_secret_key: "length (from_base64 demo_secret) = 32"
  by (simp add: demo_secret_def from_base64_def js_def b64_decode_nat_def sextets_def List.map_filter_def
      unbase64_def)

lemma demo_iv_decoded: "from_base64 (js ''AAAAAAAAAAAAAAAAAAAAAA=='') = demo_iv"
  by (simp add: from_base64_def js_def b64_decode_nat_def sextets_def List.map_filter_def unbase64_def
      demo_iv_def)

lemma decrypt_demo:
  assumes "js_split colon blob = [js ''AAAAAAAAAAAAAAAAAAAAAA=='', body]"
    and "utf8_decode (aes_256_ctr zero_keystream (from_base64 demo_secret) demo_iv
           (from_base64 body)) = text"
  shows "decrypt zero_keystream blob demo_secret = CallbackOk text"
proof -
  have "length demo_iv = 16"
    by (simp add: demo_iv_def)
  then show ?thesis
    by (simp add: decrypt_def assms demo_iv_decoded demo_secret_key Let_def)
qed

lemmas demo_eval = from_base64_def js_def b64_decode_nat_def sextets_def List.map_filter_def unbase64_def
  utf8_decode_def aes_256_ctr_def zero_keystream_def utf8_step_def colon_def

lemma decrypt_blob_req: "decrypt zero_keystream blob_req demo_secret = CallbackOk (js ''req'')"
  by (rule decrypt_demo [where body = "js ''cmVx''"]) (simp_all add: blob_req_def demo_eval)

lemma decrypt_blob_pk: "decrypt zero_keystream blob_pk demo_secret = CallbackOk (js ''pk'')"
  by (rule decrypt_demo [where body = "js ''cGs=''"]) (simp_all add: blob_pk_def demo_eval)

lemma decrypt_blob_kh: "decrypt zero_keystream blob_kh demo_secret = CallbackOk (js ''kh'')"
  by (rule decrypt_demo [where body = "js ''a2g=''"]) (simp_all add: blob_kh_def demo_eval)

lemma decrypt_blob_app: "decrypt zero_keystream blob_app demo_secret = CallbackOk (js ''app'')"
  by (rule decrypt_demo [where body = "js ''YXBw''"]) (simp_all add: blob_app_def demo_eval)

lemma decrypt_blob_seed: "decrypt zero_keystream blob_seed demo_secret = CallbackOk (js ''seed'')"
  by (rule decrypt_demo [where body = "js ''c2VlZA==''"]) (simp_all add: blob_seed_def demo_eval)

lemma blobs_truthy:
  "\<not> falsy blob_req" "\<not> falsy blob_pk" "\<not> falsy blob_kh" "\<not> falsy blob_app"
  "\<not> falsy blob_seed" "\<not> falsy (js ''x'')" "\<not> falsy (js '' '')"
  by (simp_all add: falsy_def js_def blob_req_def blob_pk_def blob_kh_def blob_app_def
      blob_seed_def)

lemma demo_names:
  "\<not> falsy key1" "\<not> falsy u1" "\<not> falsy u2" "\<not> falsy u3" "\<not> falsy t1"
  "\<not> falsy demo_secret"
  by (simp_all add: falsy_def key1_def u1_def u2_def u3_def t1_def demo_secret_def js_def)

lemma demo_account: "getActivatedApiKey demo_store key1 s = Some demo_record"
  by (simp add: getActivatedApiKey_def getApiKeyByValue_def demo_store_def demo_record_def
      isAlreadyActivated_def)

lemma demo_lookup:
  "u2f_lookup demo_record u1 = Some registered_entry"
  "u2f_lookup demo_record u2 = Some pending_entry"
  "u2f_lookup demo_record u3 = Some (registered_entry\<lparr>encryptedPublicKey := Some (js ''x'')\<rparr>)"
  "totp_lookup demo_record t1 = Some \<lparr>encryptedTotpKey = Some blob_seed\<rparr>"
  by (simp_all add: u2f_lookup_def totp_lookup_def demo_record_def u1_def u2_def u3_def)

section \<open>Format rejection\<close>

text \<open>
  C7. Whatever the key, an input that does not split at \<open>:\<close> into exactly two parts
  (it holds no colon, or more than one) makes \<open>decrypt\<close> call back with the error
  \<open>Unable to decrypt the given data.\<close>; no plaintext is returned and nothing is thrown.
\<close>

theorem decrypt_rejects_malformed:
  assumes "count_list blob colon \<noteq> 1"
  shows "length (js_split colon blob) \<noteq> 2
         \<and> decrypt ks blob k = CallbackError (js ''Unable to decrypt the given data.'')
         \<and> (\<forall>s. decrypt ks blob k \<noteq> CallbackOk s)"
proof -
  have len: "length (js_split colon blob) \<noteq> 2"
    using assms by (simp add: js_split_length)
  then have "decrypt ks blob k = CallbackError (js ''Unable to decrypt the given data.'')"
    by (auto simp: decrypt_def split: list.splits)
  with len show ?thesis by simp
qed

theorem decrypt_rejects_malformed_witness:
  "count_list (js ''no-colon-here'') colon \<noteq> 1
   \<and> decrypt (\<lambda>key iv i. 0) (js ''no-colon-here'') []
       = CallbackError (js ''Unable to decrypt the given data.'')
   \<and> count_list (js ''a:b:c'') colon \<noteq> 1
   \<and> decrypt (\<lambda>key iv i. 0) (js ''a:b:c'') []
       = CallbackError (js ''Unable to decrypt the given data.'')"
proof -
  have a: "count_list (js ''no-colon-here'') colon \<noteq> 1"
    by (simp add: js_def colon_def)
  have b: "count_list (js ''a:b:c'') colon \<noteq> 1"
    by (simp add: js_def colon_def)
  show ?thesis
    using a b decrypt_rejects_malformed [OF a, of "\<lambda>key iv i. 0" "[]"]
      decrypt_rejects_malformed [OF b, of "\<lambda>key iv i. 0" "[]"]
    by simp
qed

section \<open>TOTP verification leaves the store alone\<close>

text \<open>
  C9. \<open>validate\<close> never changes stored state: whatever it returns, the store afterwards
  is the store before, so every account record and its totp mapping are as they were,
  and the same call on the store it leaves gives the same answer again.
\<close>

theorem validate_no_mutation:
  "snd (validate e apiKeyValue apiSecret totpUuid code st) = st
   \<and> validate e apiKeyValue apiSecret totpUuid code
         (snd (validate e apiKeyValue apiSecret totpUuid code st))
       = validate e apiKeyValue apiSecret totpUuid code st"
proof -
  have "snd (validate e apiKeyValue apiSecret totpUuid code st) = st"
    by (simp add: validate_def split: sum.splits option.splits decrypt_result.splits)
  then show ?thesis by simp
qed

theorem validate_no_mutation_witness:
  "validate demo_env key1 demo_secret t1 (js ''000003'') demo_store
     = (ReturnSuccess Valid200, demo_store)
   \<and> validate demo_env key1 demo_secret t1 (js ''000003'')
         (snd (validate demo_env key1 demo_secret t1 (js ''000003'') demo_store))
       = (ReturnSuccess Valid200, demo_store)"
proof -
  have account: "getApiKeyByValue demo_store key1 = Inr (Some demo_record)"
    by (simp add: getApiKeyByValue_def demo_store_def demo_record_def)
  have active: "isAlreadyActivated demo_record"
    by (simp add: isAlreadyActivated_def demo_record_def)
  have code: "\<not> falsy (js ''000003'')"
    by (simp add: falsy_def js_def)
  have accepted: "totp_verify demo_env (js ''seed'') (js ''000003'') 1"
    by (simp add: totp_verify_def demo_env_def demo_token_def time_step_def upto.simps js_def
        parseInt10_def is_white_def is_digit_def decimal_value_def)
  have "fst (validate demo_env key1 demo_secret t1 (js ''000003'') demo_store)
          = ReturnSuccess Valid200"
    using account active code accepted demo_names demo_lookup(4) blobs_truthy(5) decrypt_blob_seed
    by (simp add: validate_def absent_def demo_env_def)
  then show ?thesis
    using validate_no_mutation [of demo_env key1 demo_secret t1 "js ''000003''" demo_store]
    by (metis prod.collapse)
qed

section \<open>The authentication challenge after a proof\<close>

lemma u2f_assign_fields:
  "record_id (u2f_assign r u entry) = record_id r"
  "activated (u2f_assign r u entry) = activated r"
  "u2f_lookup (u2f_assign r u entry) u = Some entry"
  by (simp_all add: u2f_assign_def u2f_lookup_def)

lemma space_request_rejected:
  assumes "getActivatedApiKey st k s = Some r" and "\<not> falsy u"
    and "u2f_lookup r u = Some entry"
    and "encryptedAuthenticationRequest entry = Some (js '' '')"
  shows "validateAuthentication e k s u proof st = (internal_server_error, st)"
  using assms blobs_truthy(7)
  by (simp add: validateAuthentication_def absent_def decrypt_space)

lemma validateAuthentication_success:
  assumes "validateAuthentication e k s u proof st = (ReturnSuccess p, st')"
  shows "\<exists>r entry. getActivatedApiKey st k s = Some r \<and> \<not> falsy u
           \<and> u2f_lookup r u = Some entry \<and> p = Valid200
           \<and> updateApiKeyRecord st
                (u2f_assign r u (entry\<lparr>encryptedAuthenticationRequest := Some (js '' '')\<rparr>))
              = (False, st')"
  using assms
  by (auto simp: validateAuthentication_def outcome_defs Let_def
      split: option.splits if_splits decrypt_result.splits prod.splits bool.splits)

lemma cleared_then_rejected:
  assumes "getActivatedApiKey st k s = Some r" and "\<not> falsy u"
    and "updateApiKeyRecord st
           (u2f_assign r u (entry\<lparr>encryptedAuthenticationRequest := Some (js '' '')\<rparr>))
         = (False, st')"
  shows "getActivatedApiKey st' k s'
           = Some (u2f_assign r u (entry\<lparr>encryptedAuthenticationRequest := Some (js '' '')\<rparr>))"
    and "validateAuthentication e' k s' u proof' st' = (internal_server_error, st')"
proof -
  let ?r' = "u2f_assign r u (entry\<lparr>encryptedAuthenticationRequest := Some (js '' '')\<rparr>)"
  have "record_id r = k"
    using assms(1) by (rule getActivatedApiKey_id)
  then show stored: "getActivatedApiKey st' k s' = Some ?r'"
    using get_after_update [OF assms(1) _ _ assms(3), of s'] by (simp add: u2f_assign_fields)
  have "u2f_lookup ?r' u = Some (entry\<lparr>encryptedAuthenticationRequest := Some (js '' '')\<rparr>)"
    by (simp add: u2f_assign_fields)
  from space_request_rejected [OF stored assms(2) this]
  show "validateAuthentication e' k s' u proof' st' = (internal_server_error, st')"
    by simp
qed

text \<open>
  C10. After a successful \<open>validateAuthentication\<close> the stored
  \<open>encryptedAuthenticationRequest\<close> of the credential is the one-character string of a
  single space, which is not empty and so not falsy. A later \<open>validateAuthentication\<close>
  on that UUID passes the presence check, \<open>decrypt\<close> of the space calls back with the
  format error, and the call returns 500 \<open>Internal Server Error\<close>.
\<close>

theorem space_marker_gives_internal_error:
  assumes "validateAuthentication e k s u proof st = (ReturnSuccess p, st')"
  shows "\<exists>r' entry'. getActivatedApiKey st' k s = Some r' \<and> u2f_lookup r' u = Some entry'
           \<and> encryptedAuthenticationRequest entry' = Some (js '' '')
           \<and> js '' '' = [32] \<and> \<not> absent (encryptedAuthenticationRequest entry')
           \<and> decrypt (cipher e') (js '' '') s'
               = CallbackError (js ''Unable to decrypt the given data.'')
           \<and> validateAuthentication e' k s' u proof' st'
               = (ReturnError 500 (js ''Internal Server Error''), st')"
proof -
  from validateAuthentication_success [OF assms] obtain r entry where
    r: "getActivatedApiKey st k s = Some r" and u: "\<not> falsy u"
    and upd: "updateApiKeyRecord st
                (u2f_assign r u (entry\<lparr>encryptedAuthenticationRequest := Some (js '' '')\<rparr>))
              = (False, st')"
    by blast
  let ?entry' = "entry\<lparr>encryptedAuthenticationRequest := Some (js '' '')\<rparr>"
  have "getActivatedApiKey st' k s = Some (u2f_assign r u ?entry')"
    by (rule cleared_then_rejected(1) [OF r u upd])
  moreover have "u2f_lookup (u2f_assign r u ?entry') u = Some ?entry'"
    by (simp add: u2f_assign_fields)
  moreover have "encryptedAuthenticationRequest ?entry' = Some (js '' '')"
    by simp
  moreover have "js '' '' = [32]"
    by (simp add: js_def)
  moreover have "\<not> absent (encryptedAuthenticationRequest ?entry')"
    using blobs_truthy(7) by (simp add: absent_def)
  moreover have "validateAuthentication e' k s' u proof' st'
                   = (ReturnError 500 (js ''Internal Server Error''), st')"
    using cleared_then_rejected(2) [OF r u upd, of e' s' proof']
    by (simp add: internal_server_error_def)
  ultimately show ?thesis
    using decrypt_space by blast
qed

lemma demo_first_call:
  "validateAuthentication demo_env key1 demo_secret u1 (js ''good'') demo_store
     = (ReturnSuccess Valid200,
        snd (updateApiKeyRecord demo_store
               (u2f_assign demo_record u1
                  (registered_entry\<lparr>encryptedAuthenticationRequest := Some (js '' '')\<rparr>))))"
proof -
  have entry: "encryptedAuthenticationRequest registered_entry = Some blob_req"
    "encryptedPublicKey registered_entry = Some blob_pk"
    by (simp_all add: registered_entry_def)
  have writable: "\<not> write_fails demo_store"
    by (simp add: demo_store_def)
  have accepted: "absent (errorMessage (checkSignature demo_env (js ''req'') (js ''good'')
                    (Some (js ''pk''))))"
    by (simp add: demo_env_def demo_check_def absent_def)
  have cipher: "cipher demo_env = zero_keystream"
    by (simp add: demo_env_def)
  show ?thesis
    using demo_account [of demo_secret] demo_names(2) demo_lookup(1) entry writable accepted
      blobs_truthy(1,2) decrypt_blob_req decrypt_blob_pk
    by (simp add: validateAuthentication_def absent_def cipher updateApiKeyRecord_def)
qed

theorem space_marker_gives_internal_error_witness:
  "fst (validateAuthentication demo_env key1 demo_secret u1 (js ''good'') demo_store)
     = ReturnSuccess Valid200
   \<and> fst (validateAuthentication demo_env key1 demo_secret u1 (js ''good'')
            (snd (validateAuthentication demo_env key1 demo_secret u1 (js ''good'') demo_store)))
       = ReturnError 500 (js ''Internal Server Error'')"
proof -
  obtain st' where first:
    "validateAuthentication demo_env key1 demo_secret u1 (js ''good'') demo_store
       = (ReturnSuccess Valid200, st')"
    using demo_first_call by simp
  from space_marker_gives_internal_error
         [OF first, of demo_env demo_secret "js ''good''"]
  have "validateAuthentication demo_env key1 demo_secret u1 (js ''good'') st'
          = (ReturnError 500 (js ''Internal Server Error''), st')"
    by blast
  with first show ?thesis by simp
qed

section \<open>When the authentication challenge is cleared\<close>

text \<open>
  The claim that the stored request is cleared whether the signature check succeeds or
  fails does not hold. In the small world a first proof that the library rejects is
  answered with 400 and the store is left as it was, the request of \<open>u1\<close> still in
  place; a second call with the accepted proof then succeeds.
\<close>

theorem rejected_proof_keeps_challenge:
  "validateAuthentication demo_env key1 demo_secret u1 (js ''bad'') demo_store
     = (ReturnError 400 (js ''Invalid signature''), demo_store)
   \<and> fst (validateAuthentication demo_env key1 demo_secret u1 (js ''good'')
            (snd (validateAuthentication demo_env key1 demo_secret u1 (js ''bad'') demo_store)))
       = ReturnSuccess Valid200"
proof -
  have entry: "encryptedAuthenticationRequest registered_entry = Some blob_req"
    "encryptedPublicKey registered_entry = Some blob_pk"
    by (simp_all add: registered_entry_def)
  have rejected: "errorMessage (checkSignature demo_env (js ''req'') (js ''bad'')
                    (Some (js ''pk''))) = Some (js ''Invalid signature'')"
    by (simp add: demo_env_def demo_check_def js_def)
  have message: "\<not> falsy (js ''Invalid signature'')"
    by (simp add: falsy_def js_def)
  have cipher: "cipher demo_env = zero_keystream"
    by (simp add: demo_env_def)
  have "validateAuthentication demo_env key1 demo_secret u1 (js ''bad'') demo_store
          = (ReturnError 400 (js ''Invalid signature''), demo_store)"
    using demo_account [of demo_secret] demo_names(2) demo_lookup(1) entry rejected message
      blobs_truthy(1,2) decrypt_blob_req decrypt_blob_pk
    by (simp add: validateAuthentication_def absent_def cipher)
  then show ?thesis
    using demo_first_call by simp
qed

text \<open>
  C1, amended. For a call of \<open>validateAuthentication\<close> on an activated account with a
  UUID of its u2f mapping whose \<open>encryptedAuthenticationRequest\<close> and
  \<open>encryptedPublicKey\<close> are present and decrypt: if the signature check reports no
  error and the store accepts the write, the call returns Valid, the stored request
  of the credential is the marker of one space, and every later \<open>validateAuthentication\<close>
  with that UUID returns 500; if the signature check reports an error, the call returns
  400 with that message and the store is unchanged.
\<close>

theorem challenge_cleared_on_success:
  assumes "getActivatedApiKey st k s = Some r" and "\<not> falsy u"
    and "u2f_lookup r u = Some entry"
    and "encryptedAuthenticationRequest entry = Some blob" and "\<not> falsy blob"
    and "decrypt (cipher e) blob s = CallbackOk request"
    and "encryptedPublicKey entry = Some keyblob" and "\<not> falsy keyblob"
    and "decrypt (cipher e) keyblob s = CallbackOk key"
    and "validateAuthentication e k s u proof st = (answer, st')"
  shows "(absent (errorMessage (checkSignature e request proof (Some key))) \<and> \<not> write_fails st
            \<longrightarrow> answer = ReturnSuccess Valid200
                \<and> (\<exists>r' entry'. getActivatedApiKey st' k s = Some r'
                       \<and> u2f_lookup r' u = Some entry'
                       \<and> encryptedAuthenticationRequest entry' = Some (js '' ''))
                \<and> (\<forall>e' s' proof'. validateAuthentication e' k s' u proof' st'
                                      = (internal_server_error, st')))
         \<and> (\<not> absent (errorMessage (checkSignature e request proof (Some key)))
            \<longrightarrow> answer = ReturnError 400 (the (errorMessage (checkSignature e request proof (Some key))))
                \<and> st' = st)"
proof (intro conjI impI)
  let ?entry' = "entry\<lparr>encryptedAuthenticationRequest := Some (js '' '')\<rparr>"
  assume ok: "absent (errorMessage (checkSignature e request proof (Some key))) \<and> \<not> write_fails st"
  then have run: "validateAuthentication e k s u proof st
      = (ReturnSuccess Valid200, snd (updateApiKeyRecord st (u2f_assign r u ?entry')))"
    using assms(1-9) by (simp add: validateAuthentication_def absent_def updateApiKeyRecord_def)
  with assms(10) show "answer = ReturnSuccess Valid200"
    by simp
  from run assms(10) ok have upd: "updateApiKeyRecord st (u2f_assign r u ?entry') = (False, st')"
    by (simp add: updateApiKeyRecord_def)
  have "getActivatedApiKey st' k s = Some (u2f_assign r u ?entry')"
    by (rule cleared_then_rejected(1) [OF assms(1,2) upd])
  then show "\<exists>r' entry'. getActivatedApiKey st' k s = Some r' \<and> u2f_lookup r' u = Some entry'
                \<and> encryptedAuthenticationRequest entry' = Some (js '' '')"
    by (simp add: u2f_assign_fields)
  show "\<forall>e' s' proof'. validateAuthentication e' k s' u proof' st' = (internal_server_error, st')"
    using cleared_then_rejected(2) [OF assms(1,2) upd] by blast
next
  assume "\<not> absent (errorMessage (checkSignature e request proof (Some key)))"
  then have "validateAuthentication e k s u proof st
      = (ReturnError 400 (the (errorMessage (checkSignature e request proof (Some key)))), st)"
    using assms(1-9) by (simp add: validateAuthentication_def absent_def)
  with assms(10)
  show "answer = ReturnError 400 (the (errorMessage (checkSignature e request proof (Some key))))"
    and "st' = st"
    by simp_all
qed

theorem challenge_cleared_on_success_witness:
  "fst (validateAuthentication demo_env key1 demo_secret u1 (js ''good'') demo_store)
     = ReturnSuccess Valid200
   \<and> validateAuthentication demo_env key1 demo_secret u1 (js ''bad'')
        (snd (validateAuthentication demo_env key1 demo_secret u1 (js ''good'') demo_store))
       = (internal_server_error,
          snd (validateAuthentication demo_env key1 demo_secret u1 (js ''good'') demo_store))"
proof -
  have entry: "encryptedAuthenticationRequest registered_entry = Some blob_req"
    "encryptedPublicKey registered_entry = Some blob_pk"
    by (simp_all add: registered_entry_def)
  have cipher: "cipher demo_env = zero_keystream"
    by (simp add: demo_env_def)
  have accepted: "absent (errorMessage (checkSignature demo_env (js ''req'') (js ''good'')
                    (Some (js ''pk'')))) \<and> \<not> write_fails demo_store"
    by (simp add: demo_env_def demo_check_def absent_def demo_store_def)
  obtain answer st' where run:
    "validateAuthentication demo_env key1 demo_secret u1 (js ''good'') demo_store = (answer, st')"
    by (cases "validateAuthentication demo_env key1 demo_secret u1 (js ''good'') demo_store")
  from challenge_cleared_on_success
         [OF demo_account demo_names(2) demo_lookup(1) entry(1) blobs_truthy(1)
             decrypt_blob_req [folded cipher] entry(2) blobs_truthy(2)
             decrypt_blob_pk [folded cipher] run]
       accepted
  have "answer = ReturnSuccess Valid200"
    and "validateAuthentication demo_env key1 demo_secret u1 (js ''bad'') st'
           = (internal_server_error, st')"
    by blast+
  with run show ?thesis by simp
qed

section \<open>A rejected registration proof\<close>

text \<open>
  C5. The claim is that a registration proof rejected by the u2f library is answered
  with the library's own error message. In the small world \<open>u2\<close> awaits its registration
  proof; the library answers the proof \<open>bad\<close> with \<open>Invalid signature\<close>, and
  \<open>validateRegistration\<close> returns 500 \<open>Internal Server Error\<close> and leaves the store as
  it was, where \<open>validateAuthentication\<close> hands the library's message on with 400.
\<close>

theorem rejected_registration_is_internal_error:
  "errorMessage (checkRegistration demo_env (js ''req'') (js ''bad''))
     = Some (js ''Invalid signature'')
   \<and> validateRegistration demo_env demo_iv demo_iv key1 demo_secret u2 (js ''bad'') demo_store
     = (ReturnError 500 (js ''Internal Server Error''), demo_store)
   \<and> js ''Internal Server Error'' \<noteq> js ''Invalid signature''"
proof -
  have entry: "encryptedRegistrationRequest pending_entry = Some blob_req"
    by (simp add: pending_entry_def)
  have rejected: "errorMessage (checkRegistration demo_env (js ''req'') (js ''bad''))
                    = Some (js ''Invalid signature'')"
    by (simp add: demo_env_def demo_check_def js_def)
  have message: "\<not> falsy (js ''Invalid signature'')"
    by (simp add: falsy_def js_def)
  have cipher: "cipher demo_env = zero_keystream"
    by (simp add: demo_env_def)
  have "validateRegistration demo_env demo_iv demo_iv key1 demo_secret u2 (js ''bad'') demo_store
          = (ReturnError 500 (js ''Internal Server Error''), demo_store)"
    using demo_account [of demo_secret] demo_names(3) demo_lookup(2) entry rejected message
      blobs_truthy(1) decrypt_blob_req
    by (simp add: validateRegistration_def absent_def cipher internal_server_error_def)
  moreover have "js ''Internal Server Error'' \<noteq> js ''Invalid signature''"
    by (simp add: js_def)
  ultimately show ?thesis
    using rejected by simp
qed

section \<open>A public key that does not decrypt\<close>

text \<open>
  C6. The claim is that a failed \<open>decrypt\<close> of a stored field always ends in 500 and
  that the operation never goes on. The credential \<open>u3\<close> of the small world has a
  request that decrypts and a public key field \<open>x\<close>, for which \<open>decrypt\<close> calls back with
  the format error. \<open>validateAuthentication\<close> goes on to the signature check without a
  public key and returns what the check says, 400 \<open>Invalid signature\<close>.
\<close>

theorem undecryptable_public_key_reaches_check:
  "decrypt (cipher demo_env) (js ''x'') demo_secret
     = CallbackError (js ''Unable to decrypt the given data.'')
   \<and> validateAuthentication demo_env key1 demo_secret u3 (js ''good'') demo_store
     = (ReturnError 400 (js ''Invalid signature''), demo_store)
   \<and> validateAuthentication demo_env key1 demo_secret u3 (js ''good'') demo_store
     \<noteq> (internal_server_error, demo_store)"
proof -
  have entry: "encryptedAuthenticationRequest (registered_entry\<lparr>encryptedPublicKey := Some (js ''x'')\<rparr>)
                 = Some blob_req"
    "encryptedPublicKey (registered_entry\<lparr>encryptedPublicKey := Some (js ''x'')\<rparr>) = Some (js ''x'')"
    by (simp_all add: registered_entry_def)
  have rejected: "errorMessage (checkSignature demo_env (js ''req'') (js ''good'') None)
                    = Some (js ''Invalid signature'')"
    by (simp add: demo_env_def demo_check_def)
  have message: "\<not> falsy (js ''Invalid signature'')"
    by (simp add: falsy_def js_def)
  have cipher: "cipher demo_env = zero_keystream"
    by (simp add: demo_env_def)
  have run: "validateAuthentication demo_env key1 demo_secret u3 (js ''good'') demo_store
          = (ReturnError 400 (js ''Invalid signature''), demo_store)"
    using demo_account [of demo_secret] demo_names(4) demo_lookup(3) entry rejected message
      blobs_truthy(1,6) decrypt_blob_req decrypt_x [of zero_keystream demo_secret]
    by (simp add: validateAuthentication_def absent_def cipher)
  then show ?thesis
    using decrypt_x [of "cipher demo_env" demo_secret]
    by (simp add: internal_server_error_def)
qed

section \<open>Beginning a registration\<close>

lemma encrypt_truthy: "encrypt ks randomBytes s k = Inr blob \<Longrightarrow> \<not> falsy blob"
  by (auto simp: encrypt_def falsy_def Let_def split: if_splits)

lemma callback_creates_pending:
  assumes "createRegistration_callback e uuids rb1 rb2 k s appId st = Some (ReturnSuccess p, st')"
  shows "\<exists>u r' entry. p = RegistrationResponse u (u2f_request e appId None)
           \<and> getActivatedApiKey st' k s = Some r' \<and> u2f_lookup r' u = Some entry
           \<and> \<not> absent (encryptedRegistrationRequest entry)
           \<and> encryptedPublicKey entry = None \<and> encryptedKeyHandle entry = None
           \<and> pending_xor_registered entry"
proof -
  from assms obtain r u blob1 blob2 where
    r: "getActivatedApiKey st k s = Some r"
    and enc: "encrypt (cipher e) rb2 (stringify e (u2f_request e appId None)) s = Inr blob2"
    and upd: "updateApiKeyRecord st
                (u2f_assign r u
                   \<lparr>encryptedAppId = Some blob1, encryptedRegistrationRequest = Some blob2,
                    encryptedPublicKey = None, encryptedKeyHandle = None,
                    encryptedAuthenticationRequest = None\<rparr>) = (False, st')"
    and p: "p = RegistrationResponse u (u2f_request e appId None)"
    by (auto simp: createRegistration_callback_def outcome_defs Let_def
        split: option.splits sum.splits prod.splits bool.splits)
  let ?entry = "\<lparr>encryptedAppId = Some blob1, encryptedRegistrationRequest = Some blob2,
                 encryptedPublicKey = None, encryptedKeyHandle = None,
                 encryptedAuthenticationRequest = None\<rparr>"
  have "record_id r = k"
    using r by (rule getActivatedApiKey_id)
  then have "getActivatedApiKey st' k s = Some (u2f_assign r u ?entry)"
    using get_after_update [OF r _ _ upd, of s] by (simp add: u2f_assign_fields)
  moreover have "u2f_lookup (u2f_assign r u ?entry) u = Some ?entry"
    by (simp add: u2f_assign_fields)
  moreover have "\<not> absent (encryptedRegistrationRequest ?entry)"
    using encrypt_truthy [OF enc] by (simp add: absent_def)
  ultimately show ?thesis
    using p by (auto simp: pending_xor_registered_def absent_def)
qed

lemma validateRegistration_registers:
  assumes "validateRegistration e rb1 rb2 k s u proof st = (ReturnSuccess p, st')"
  shows "\<exists>r' entry. getActivatedApiKey st' k s = Some r' \<and> u2f_lookup r' u = Some entry
           \<and> encryptedRegistrationRequest entry = None
           \<and> \<not> absent (encryptedPublicKey entry) \<and> \<not> absent (encryptedKeyHandle entry)
           \<and> pending_xor_registered entry
           \<and> (\<forall>e' rb1' rb2' s' proof'.
                 validateRegistration e' rb1' rb2' k s' u proof' st' = (internal_server_error, st'))"
proof -
  from assms obtain r entry key handle blob1 blob2 where
    r: "getActivatedApiKey st k s = Some r" and u: "\<not> falsy u"
    and enc1: "encrypt (cipher e) rb1 key s = Inr blob1"
    and enc2: "encrypt (cipher e) rb2 handle s = Inr blob2"
    and upd: "updateApiKeyRecord st
                (u2f_assign r u
                   (entry\<lparr>encryptedRegistrationRequest := None,
                          encryptedPublicKey := Some blob1,
                          encryptedKeyHandle := Some blob2\<rparr>)) = (False, st')"
    by (auto simp: validateRegistration_def outcome_defs Let_def
        split: option.splits if_splits decrypt_result.splits sum.splits prod.splits bool.splits)
  let ?entry = "entry\<lparr>encryptedRegistrationRequest := None, encryptedPublicKey := Some blob1,
                       encryptedKeyHandle := Some blob2\<rparr>"
  have "record_id r = k"
    using r by (rule getActivatedApiKey_id)
  then have stored: "getActivatedApiKey st' k s' = Some (u2f_assign r u ?entry)" for s'
    using get_after_update [OF r _ _ upd, of s'] by (simp add: u2f_assign_fields)
  have found: "u2f_lookup (u2f_assign r u ?entry) u = Some ?entry"
    by (simp add: u2f_assign_fields)
  have fields: "encryptedRegistrationRequest ?entry = None"
    "\<not> absent (encryptedPublicKey ?entry)" "\<not> absent (encryptedKeyHandle ?entry)"
    using encrypt_truthy [OF enc1] encrypt_truthy [OF enc2] by (simp_all add: absent_def)
  have "validateRegistration e' rb1' rb2' k s' u proof' st' = (internal_server_error, st')"
    for e' rb1' rb2' s' proof'
    using stored [of s'] u found fields(1) by (simp add: validateRegistration_def absent_def)
  then show ?thesis
    using stored [of s] found fields by (auto simp: pending_xor_registered_def absent_def)
qed

text \<open>
  C2. The claim is that after \<open>createRegistration\<close> the account holds a credential with
  a registration request and no public key. Every call of \<open>createRegistration\<close> ends in
  the \<open>ReferenceError\<close> of its first statement, before the account is read: nothing is
  returned to the caller and the store is as it was, so no credential is created.
  The callback that the statement never reaches does create a pending credential
  (\<open>callback_creates_pending\<close>), and a successful \<open>validateRegistration\<close> turns a
  credential into a registered one on which a second \<open>validateRegistration\<close> returns 500
  (\<open>validateRegistration_registers\<close>).
\<close>

theorem createRegistration_throws:
  "createRegistration e uuids randomBytes1 randomBytes2 apiKeyValue apiSecret appId st
     = Some (Uncaught ReferenceError, st)"
  by (simp add: createRegistration_def createRegistration_scope_def)

section \<open>A failed precondition chain\<close>

lemma u2f_chain_cases:
  "u2f_chain_fails st k u
   \<Longrightarrow> getActivatedApiKey st k s = None
       \<or> (\<exists>r. getActivatedApiKey st k s = Some r
              \<and> (falsy u \<or> u2f_lookup r u = None
                  \<or> (inherited u \<and> u2f_lookup r u = Some inherited_u2f_member)))"
  by (auto simp: u2f_chain_fails_def u2f_key_def u2f_lookup_def getActivatedApiKey_def
      split: sum.splits option.splits)

lemma inherited_u2f_member_fields:
  "absent (encryptedAppId inherited_u2f_member)"
  "absent (encryptedRegistrationRequest inherited_u2f_member)"
  "absent (encryptedAuthenticationRequest inherited_u2f_member)"
  by (simp_all add: inherited_u2f_member_def absent_def)

lemma createAuthentication_chain:
  "u2f_chain_fails st k u
   \<Longrightarrow> is_error (fst (createAuthentication e rb k s u st))
       \<and> snd (createAuthentication e rb k s u st) = st"
  by (drule u2f_chain_cases [where s = s])
     (auto simp: createAuthentication_def is_error_def outcome_defs inherited_u2f_member_fields)

lemma validateAuthentication_chain:
  "u2f_chain_fails st k u
   \<Longrightarrow> is_error (fst (validateAuthentication e k s u proof st))
       \<and> snd (validateAuthentication e k s u proof st) = st"
  by (drule u2f_chain_cases [where s = s])
     (auto simp: validateAuthentication_def is_error_def outcome_defs inherited_u2f_member_fields)

lemma validateRegistration_chain:
  "u2f_chain_fails st k u
   \<Longrightarrow> is_error (fst (validateRegistration e rb1 rb2 k s u proof st))
       \<and> snd (validateRegistration e rb1 rb2 k s u proof st) = st"
  by (drule u2f_chain_cases [where s = s])
     (auto simp: validateRegistration_def is_error_def outcome_defs inherited_u2f_member_fields)

lemma delete_chain:
  "u2f_chain_fails st k u \<Longrightarrow> \<not> inherited u
   \<Longrightarrow> is_error (fst (delete k s u st)) \<and> snd (delete k s u st) = st"
  by (drule u2f_chain_cases [where s = s])
     (auto simp: delete_def is_error_def outcome_defs)

lemma createRegistration_callback_chain:
  "account_chain_fails st k
   \<Longrightarrow> createRegistration_callback e uuids rb1 rb2 k s appId st = Some (unauthorized, st)"
  by (auto simp: account_chain_fails_def createRegistration_callback_def getActivatedApiKey_def
      split: sum.splits option.splits)

lemma validate_chain:
  "totp_chain_fails st k u
   \<Longrightarrow> is_error (fst (validate e k s u code st)) \<and> snd (validate e k s u code st) = st"
  by (auto simp: totp_chain_fails_def totp_key_def totp_lookup_def validate_def is_error_def
      outcome_defs inherited_totp_member_def absent_def split: sum.splits option.splits)

lemma create_chain:
  "account_chain_fails st k
   \<Longrightarrow> \<exists>answer. create e uuids rb k s issuer label st = Some (answer, st) \<and> is_error answer"
  by (auto simp: account_chain_fails_def create_def is_error_def outcome_defs
      split: sum.splits option.splits)

text \<open>
  C8. The claim is that a failed precondition chain always ends in a returned error
  with nothing written. Two entry points do otherwise. The name \<open>constructor\<close> is no
  key of the u2f mapping of the account \<open>key1\<close>, yet \<open>delete\<close> finds the inherited member
  under it, hands the record to \<open>updateApiKeyRecord\<close> and returns success; on a store
  whose writes fail the same call returns 500, the answer to a failed write. And
  \<open>createRegistration\<close> for the unknown account \<open>u1\<close> returns nothing: it ends in the
  \<open>ReferenceError\<close> of its first statement. The lemmas above show the chain of the
  other entry points, and of \<open>delete\<close> for every other name.
\<close>

theorem delete_of_inherited_name_writes:
  "getActivatedApiKey demo_store key1 demo_secret = Some demo_record
   \<and> \<not> u2f_key demo_record (js ''constructor'')
   \<and> delete key1 demo_secret (js ''constructor'') demo_store
       = (ReturnSuccess Null, snd (updateApiKeyRecord demo_store demo_record))
   \<and> delete key1 demo_secret (js ''constructor'') (demo_store\<lparr>write_fails := True\<rparr>)
       = (ReturnError 500 (js ''Internal Server Error''), demo_store\<lparr>write_fails := True\<rparr>)
   \<and> getApiKeyByValue demo_store u1 = Inr None
   \<and> createRegistration demo_env [u2] demo_iv demo_iv u1 demo_secret (js ''app'') demo_store
       = Some (Uncaught ReferenceError, demo_store)"
proof -
  let ?name = "js ''constructor''"
  let ?m = "[u1 \<mapsto> registered_entry, u2 \<mapsto> pending_entry,
             u3 \<mapsto> registered_entry\<lparr>encryptedPublicKey := Some (js ''x'')\<rparr>]"
  have name: "\<not> falsy ?name" "inherited ?name"
    by (simp_all add: falsy_def inherited_def object_prototype_names_def) (simp add: js_def)
  have none: "?m ?name = None"
    by (simp add: js_def u1_def u2_def u3_def)
  then have same: "?m(?name := None) = ?m"
    by (simp only: fun_upd_idem_iff)
  have mapping: "u2f demo_record = Some ?m"
    by (simp add: demo_record_def)
  have found: "u2f_lookup demo_record ?name = Some inherited_u2f_member"
    using none name(2) by (simp add: u2f_lookup_def mapping)
  have rewritten: "demo_record\<lparr>u2f := map_option (\<lambda>m. m(?name := None)) (u2f demo_record)\<rparr>
                     = demo_record"
    by (simp add: mapping same)
  have account: "getApiKeyByValue demo_store key1 = Inr (Some demo_record)"
    "getApiKeyByValue demo_store u1 = Inr None"
    by (simp_all add: getApiKeyByValue_def demo_store_def demo_record_def key1_def u1_def)
  have chain: "\<not> u2f_key demo_record ?name"
    using none by (simp add: u2f_key_def mapping)
  have failing: "getActivatedApiKey (demo_store\<lparr>write_fails := True\<rparr>) key1 demo_secret
                   = Some demo_record"
    using demo_account [of demo_secret]
    by (simp add: getActivatedApiKey_def getApiKeyByValue_def demo_store_def)
  have first: "delete key1 demo_secret ?name demo_store
                 = (ReturnSuccess Null, snd (updateApiKeyRecord demo_store demo_record))"
    using demo_account [of demo_secret] name(1) found
    by (simp add: delete_def rewritten updateApiKeyRecord_def demo_store_def)
  have second: "delete key1 demo_secret ?name (demo_store\<lparr>write_fails := True\<rparr>)
                  = (ReturnError 500 (js ''Internal Server Error''),
                     demo_store\<lparr>write_fails := True\<rparr>)"
    using failing name(1) found
    by (simp add: delete_def rewritten updateApiKeyRecord_def internal_server_error_def)
  have third: "getApiKeyByValue demo_store u1 = Inr None"
    by (rule account(2))
  have fourth: "createRegistration demo_env [u2] demo_iv demo_iv u1 demo_secret (js ''app'')
                  demo_store = Some (Uncaught ReferenceError, demo_store)"
    by (simp add: createRegistration_def createRegistration_scope_def)
  show ?thesis
    using demo_account [of demo_secret] chain first second third fourth by simp
qed

section \<open>The TOTP window\<close>

lemma parseInt10_digits:
  assumes "s \<noteq> []" and "list_all (\<lambda>unit. is_digit (unat unit)) s"
  shows "parseInt10 s = Some (int (decimal_value (map unat s)))"
proof -
  obtain c rest where s: "map unat s = c # rest"
    using assms(1) by (cases s) auto
  have digits: "\<forall>d\<in>set (map unat s). is_digit d"
    using assms(2) by (auto simp: list_all_iff)
  then have c: "is_digit c"
    by (simp add: s)
  then have first: "\<not> is_white c" "c \<noteq> 45" "c \<noteq> 43"
    by (auto simp: is_digit_def is_white_def)
  have "takeWhile is_digit (map unat s) = map unat s"
    using digits by (simp add: takeWhile_eq_all_conv)
  then show ?thesis
    using first by (simp add: parseInt10_def s)
qed

lemma validate_answer:
  assumes "\<not> falsy apiKeyValue" and "\<not> falsy apiSecret" and "\<not> falsy totpUuid"
    and "\<not> falsy code"
    and "getApiKeyByValue st apiKeyValue = Inr (Some apiKeyRecord)"
    and "isAlreadyActivated apiKeyRecord"
    and "totp_lookup apiKeyRecord totpUuid = Some entry"
    and "encryptedTotpKey entry = Some blob" and "\<not> falsy blob"
    and "decrypt (cipher e) blob apiSecret = CallbackOk seed"
  shows "validate e apiKeyValue apiSecret totpUuid code st
      = (if \<not> totp_verify e seed code 1 then (ReturnError 401 (js ''Invalid''), st)
         else (ReturnSuccess Valid200, st))"
  using assms by (simp add: validate_def absent_def)

lemma window_of_one:
  "totp_verify e seed code 1
   \<longleftrightarrow> length code = 6
       \<and> (\<exists>number. parseInt10 code = Some number
             \<and> Some number \<in> {parseInt10 (totp_token e seed (int (now e div 30000) - 1)),
                               parseInt10 (totp_token e seed (int (now e div 30000))),
                               parseInt10 (totp_token e seed (int (now e div 30000) + 1))})"
proof -
  have window: "[time_step (now e) - int 1 .. time_step (now e) + int 1]
                  = [int (now e div 30000) - 1, int (now e div 30000), int (now e div 30000) + 1]"
    by (simp add: upto.simps time_step_def)
  show ?thesis
    unfolding totp_verify_def window by (auto split: option.splits)
qed

text \<open>
  The claim that the answer is Valid only for a code equal to one of the three codes
  does not hold. With the clock of the small world in step 29 the codes of the steps
  28, 29 and 30 are \<open>999999\<close>, \<open>067820\<close> and \<open>999999\<close>; the submitted \<open>67820x\<close> is none of
  them, has six characters and is read as the number 67820, as is the code \<open>067820\<close>,
  and \<open>validate\<close> answers Valid.
\<close>

theorem other_code_is_valid:
  "int (now (demo_env\<lparr>now := 870000\<rparr>) div 30000) = 29
   \<and> totp_token (demo_env\<lparr>now := 870000\<rparr>) (js ''seed'') 28 = js ''999999''
   \<and> totp_token (demo_env\<lparr>now := 870000\<rparr>) (js ''seed'') 29 = js ''067820''
   \<and> totp_token (demo_env\<lparr>now := 870000\<rparr>) (js ''seed'') 30 = js ''999999''
   \<and> js ''67820x'' \<noteq> js ''999999'' \<and> js ''67820x'' \<noteq> js ''067820''
   \<and> validate (demo_env\<lparr>now := 870000\<rparr>) key1 demo_secret t1 (js ''67820x'') demo_store
       = (ReturnSuccess Valid200, demo_store)"
proof -
  let ?e = "demo_env\<lparr>now := 870000\<rparr>"
  have account: "getApiKeyByValue demo_store key1 = Inr (Some demo_record)"
    by (simp add: getApiKeyByValue_def demo_store_def demo_record_def)
  have active: "isAlreadyActivated demo_record"
    by (simp add: isAlreadyActivated_def demo_record_def)
  have code: "\<not> falsy (js ''67820x'')"
    by (simp add: falsy_def js_def)
  have stored: "encryptedTotpKey \<lparr>encryptedTotpKey = Some blob_seed\<rparr> = Some blob_seed"
    by simp
  have seed: "decrypt (cipher ?e) blob_seed demo_secret = CallbackOk (js ''seed'')"
    using decrypt_blob_seed by (simp add: demo_env_def)
  have env: "now ?e = 870000" "totp_token ?e = demo_token"
    by (simp_all add: demo_env_def)
  have read: "parseInt10 (js ''67820x'') = Some 67820" "parseInt10 (js ''067820'') = Some 67820"
    "length (js ''67820x'') = 6"
    by (simp_all add: parseInt10_def js_def is_white_def is_digit_def decimal_value_def)
  have "totp_verify ?e (js ''seed'') (js ''67820x'') 1"
    unfolding window_of_one by (simp add: env demo_token_def read)
  then have "validate ?e key1 demo_secret t1 (js ''67820x'') demo_store
               = (ReturnSuccess Valid200, demo_store)"
    using validate_answer [OF demo_names(1) demo_names(6) demo_names(5) code account active
        demo_lookup(4) stored blobs_truthy(5) seed]
    by simp
  moreover have "js ''67820x'' \<noteq> js ''999999''" "js ''67820x'' \<noteq> js ''067820''"
    by (simp_all add: js_def)
  ultimately show ?thesis
    by (simp add: env demo_token_def)
qed

text \<open>
  C4, amended. For a call of \<open>validate\<close> whose preconditions hold (nonempty arguments, an
  activated account, a UUID of its totp mapping, a stored key that decrypts to a seed),
  the answer is Valid exactly when the submitted code has six characters and
  \<open>parseInt(code, 10)\<close> is a number equal to \<open>parseInt\<close> of one of the three codes of the
  seed at the previous, the current and the next time step, the current step being the
  clock in milliseconds divided by 30000; otherwise the answer is 401 \<open>Invalid\<close>. In
  particular a code of six decimal digits that equals one of the three codes is Valid.
\<close>

theorem validate_window:
  assumes "\<not> falsy apiKeyValue" and "\<not> falsy apiSecret" and "\<not> falsy totpUuid"
    and "\<not> falsy code"
    and "getApiKeyByValue st apiKeyValue = Inr (Some apiKeyRecord)"
    and "isAlreadyActivated apiKeyRecord"
    and "totp_lookup apiKeyRecord totpUuid = Some entry"
    and "encryptedTotpKey entry = Some blob" and "\<not> falsy blob"
    and "decrypt (cipher e) blob apiSecret = CallbackOk seed"
  shows "(fst (validate e apiKeyValue apiSecret totpUuid code st) = ReturnSuccess Valid200
          \<longleftrightarrow> length code = 6
              \<and> (\<exists>number. parseInt10 code = Some number
                    \<and> Some number
                        \<in> {parseInt10 (totp_token e seed (int (now e div 30000) - 1)),
                            parseInt10 (totp_token e seed (int (now e div 30000))),
                            parseInt10 (totp_token e seed (int (now e div 30000) + 1))}))
         \<and> (fst (validate e apiKeyValue apiSecret totpUuid code st) \<noteq> ReturnSuccess Valid200
          \<longrightarrow> fst (validate e apiKeyValue apiSecret totpUuid code st)
                = ReturnError 401 (js ''Invalid''))
         \<and> (length code = 6 \<and> list_all (\<lambda>unit. is_digit (unat unit)) code
              \<and> code \<in> {totp_token e seed (int (now e div 30000) - 1),
                          totp_token e seed (int (now e div 30000)),
                          totp_token e seed (int (now e div 30000) + 1)}
          \<longrightarrow> fst (validate e apiKeyValue apiSecret totpUuid code st) = ReturnSuccess Valid200)"
proof -
  note answer = validate_answer [OF assms]
  have iff: "fst (validate e apiKeyValue apiSecret totpUuid code st) = ReturnSuccess Valid200
               \<longleftrightarrow> totp_verify e seed code 1"
    by (simp add: answer)
  have other: "fst (validate e apiKeyValue apiSecret totpUuid code st) \<noteq> ReturnSuccess Valid200
               \<longrightarrow> fst (validate e apiKeyValue apiSecret totpUuid code st)
                     = ReturnError 401 (js ''Invalid'')"
    by (simp add: answer)
  have equal: "totp_verify e seed code 1"
    if "length code = 6" and "list_all (\<lambda>unit. is_digit (unat unit)) code"
      and "code \<in> {totp_token e seed (int (now e div 30000) - 1),
                    totp_token e seed (int (now e div 30000)),
                    totp_token e seed (int (now e div 30000) + 1)}"
  proof -
    from that(1) have "code \<noteq> []" by auto
    from parseInt10_digits [OF this that(2)] that(1,3) show ?thesis
      unfolding window_of_one by auto
  qed
  show ?thesis
    using iff other equal unfolding window_of_one by blast
qed

theorem validate_window_witness:
  "fst (validate (demo_env\<lparr>now := 149999\<rparr>) key1 demo_secret t1 (js ''000003'') demo_store)
     = ReturnSuccess Valid200
   \<and> fst (validate (demo_env\<lparr>now := 150000\<rparr>) key1 demo_secret t1 (js ''000003'') demo_store)
     = ReturnError 401 (js ''Invalid'')
   \<and> fst (validate (demo_env\<lparr>now := 150000\<rparr>) key1 demo_secret t1 (js ''000004'') demo_store)
     = ReturnSuccess Valid200"
proof -
  have account: "getApiKeyByValue demo_store key1 = Inr (Some demo_record)"
    by (simp add: getApiKeyByValue_def demo_store_def demo_record_def)
  have active: "isAlreadyActivated demo_record"
    by (simp add: isAlreadyActivated_def demo_record_def)
  have codes: "\<not> falsy (js ''000003'')" "\<not> falsy (js ''000004'')"
    by (simp_all add: falsy_def js_def)
  have stored: "encryptedTotpKey \<lparr>encryptedTotpKey = Some blob_seed\<rparr> = Some blob_seed"
    by simp
  have seed: "decrypt (cipher (demo_env\<lparr>now := t\<rparr>)) blob_seed demo_secret
                = CallbackOk (js ''seed'')" for t
    using decrypt_blob_seed by (simp add: demo_env_def)
  have env: "now (demo_env\<lparr>now := t\<rparr>) = t" "totp_token (demo_env\<lparr>now := t\<rparr>) = demo_token"
    for t
    by (simp_all add: demo_env_def)
  have read: "parseInt10 (js ''000003'') = Some 3" "parseInt10 (js ''000004'') = Some 4"
    "parseInt10 (js ''999999'') = Some 999999" "parseInt10 (js ''000002'') = Some 2"
    "length (js ''000003'') = 6" "length (js ''000004'') = 6"
    by (simp_all add: parseInt10_def js_def is_white_def is_digit_def decimal_value_def)
  note w = validate_window [OF demo_names(1) demo_names(6) demo_names(5) _ account active
      demo_lookup(4) stored blobs_truthy(5) seed]
  show ?thesis
    using w [OF codes(1), of 149999] w [OF codes(1), of 150000] w [OF codes(2), of 150000]
    by (simp add: env demo_token_def read)
qed

section \<open>Decrypting what was encrypted\<close>

lemma lone_surrogate_any_cipher:
  assumes "length (from_base64 k) = 32" and "length randomBytes = 16"
  shows "\<exists>blob. encrypt ks randomBytes [55296] k = Inr blob
           \<and> decrypt ks blob k = CallbackOk [65533]"
  using encrypt_blob [OF assms, of ks "[55296]"] decrypt_blob [OF assms, of ks "[55296]"]
  by (simp add: lone_surrogate_replaced)

text \<open>
  The round trip does not hold for every string. The string of the single code unit
  D800, a high surrogate with no low surrogate after it, is encoded as the three bytes
  of U+FFFD; under the secret and the IV of the small world \<open>encrypt\<close> returns the blob
  below and \<open>decrypt\<close> of that blob returns the string of the single code unit FFFD.
  By \<open>lone_surrogate_any_cipher\<close> the same happens under every keystream.
\<close>

theorem lone_surrogate_not_recovered:
  "encrypt zero_keystream demo_iv [55296] demo_secret
     = Inr (js ''AAAAAAAAAAAAAAAAAAAAAA==:77+9'')
   \<and> decrypt zero_keystream (js ''AAAAAAAAAAAAAAAAAAAAAA==:77+9'') demo_secret
     = CallbackOk [65533]
   \<and> [65533] \<noteq> ([55296] :: jsstring)"
proof -
  have iv: "length demo_iv = 16"
    by (simp add: demo_iv_def)
  have head: "to_base64 demo_iv = js ''AAAAAAAAAAAAAAAAAAAAAA==''"
    by (simp add: to_base64_def demo_iv_def js_def b64chr_def)
  have bytes: "utf8_encode [55296] = [239, 191, 189]"
    by (simp add: utf8_encode_def utf8_encode_nat_def is_high_def utf8_bytes_def)
  have tail: "to_base64 (aes_256_ctr zero_keystream key demo_iv [239, 191, 189]) = js ''77+9''"
    for key
    by (simp add: to_base64_def aes_256_ctr_def zero_keystream_def js_def b64chr_def)
  have blob: "to_base64 demo_iv @ colon
                # to_base64 (aes_256_ctr zero_keystream (from_base64 demo_secret) demo_iv
                    (utf8_encode [55296]))
              = js ''AAAAAAAAAAAAAAAAAAAAAA==:77+9''"
    unfolding head bytes tail by (simp add: js_def colon_def)
  show ?thesis
    using encrypt_blob [OF demo_secret_key iv, of zero_keystream "[55296]"]
      decrypt_blob [OF demo_secret_key iv, of zero_keystream "[55296]"]
    by (simp add: blob lone_surrogate_replaced)
qed

text \<open>
  C3, amended. For every well-formed string \<open>s\<close> (no surrogate code unit outside a
  pair of a high and a low one), every key \<open>k\<close> whose base64 decoding has 32 bytes and
  every 16 random bytes, \<open>encrypt\<close> returns a blob, and \<open>decrypt\<close> of that blob with the
  same key calls back with exactly \<open>s\<close>.
\<close>

theorem decrypt_encrypt_roundtrip:
  assumes "well_formed_string s" and "length (from_base64 k) = 32"
    and "length randomBytes = 16"
  shows "\<exists>blob. encrypt ks randomBytes s k = Inr blob \<and> decrypt ks blob k = CallbackOk s"
  using encrypt_blob [OF assms(2,3)] decrypt_blob [OF assms(2,3)] utf8_roundtrip [OF assms(1)]
  by simp

theorem decrypt_encrypt_roundtrip_witness:
  "well_formed_string (js ''seed'') \<and> length (from_base64 demo_secret) = 32
   \<and> length demo_iv = 16
   \<and> (\<exists>blob. encrypt zero_keystream demo_iv (js ''seed'') demo_secret = Inr blob
         \<and> decrypt zero_keystream blob demo_secret = CallbackOk (js ''seed''))"
proof -
  have s: "well_formed_string (js ''seed'')"
    by (simp add: well_formed_string_def js_def is_high_def is_low_def)
  have iv: "length demo_iv = 16"
    by (simp add: demo_iv_def)
  show ?thesis
    using s iv demo_secret_key
      decrypt_encrypt_roundtrip [OF s demo_secret_key iv, of zero_keystream]
    by simp
qed

end
